theory Spec2Isabelle
  imports Complex_Main "HOL-Library.Product_Lexorder" "HOL-Library.List_Lexorder" "HOL-Library.Char_ord"
    "HOL-Library.Log_Nat"
begin

section \<open>Python values used by the quiz engine\<close>

text \<open>
  The engine is \<^verbatim>\<open>quiz_system.py\<close> (class \<^verbatim>\<open>QuizSystem\<close>) on top of the SQLite
  store of \<^verbatim>\<open>database.py\<close>, driven by the commands of \<^verbatim>\<open>bot.py\<close>.
  Python integers are unbounded, so they are \<^typ>\<open>int\<close>.
  An exception that leaves a function is the value \<open>Raised e\<close>; the state returned with it
  is the state as mutated up to the raise.
\<close>

datatype py_exception = KeyError | ValueError | IntegrityError | StorageError

datatype 'a result = Returned 'a | Raised py_exception

text \<open>\<^verbatim>\<open>str.lower()\<close> on ASCII text: the letters A to Z move to a to z.\<close>

definition lower_char :: "char \<Rightarrow> char" where
  "lower_char c =
     (let n = (of_char c :: nat) in if 65 \<le> n \<and> n \<le> 90 then char_of (n + 32) else c)"

definition lower :: "string \<Rightarrow> string" where
  "lower s = map lower_char s"

text \<open>
  \<^verbatim>\<open>int(s)\<close> on ASCII text: surrounding whitespace is stripped, one sign is allowed, the
  digits are decimal and single underscores may separate them; anything else raises
  \<^verbatim>\<open>ValueError\<close> (the value \<open>None\<close> here).
\<close>

definition is_space :: "char \<Rightarrow> bool" where
  "is_space c = (let n = (of_char c :: nat) in (9 \<le> n \<and> n \<le> 13) \<or> (28 \<le> n \<and> n \<le> 32))"

definition strip :: "string \<Rightarrow> string" where
  "strip s = rev (dropWhile is_space (rev (dropWhile is_space s)))"

definition digit_val :: "char \<Rightarrow> nat option" where
  "digit_val c =
     (let n = (of_char c :: nat) in if 48 \<le> n \<and> n \<le> 57 then Some (n - 48) else None)"

fun parse_digits :: "nat \<Rightarrow> bool \<Rightarrow> string \<Rightarrow> nat option" where
  "parse_digits acc prev [] = (if prev then Some acc else None)"
| "parse_digits acc prev (c # cs) =
     (if c = CHR ''_'' then (if prev \<and> cs \<noteq> [] then parse_digits acc False cs else None)
      else (case digit_val c of
              None \<Rightarrow> None
            | Some d \<Rightarrow> parse_digits (10 * acc + d) True cs))"

definition py_int_of_str :: "string \<Rightarrow> int option" where
  "py_int_of_str s =
     (case strip s of
        [] \<Rightarrow> None
      | c # cs \<Rightarrow>
          if c = CHR ''-'' then map_option (\<lambda>n. - int n) (parse_digits 0 False cs)
          else if c = CHR ''+'' then map_option int (parse_digits 0 False cs)
          else map_option int (parse_digits 0 False (c # cs)))"

text \<open>\<^verbatim>\<open>int(x)\<close> on a number truncates towards zero.\<close>

definition py_trunc :: "rat \<Rightarrow> int" where
  "py_trunc x = (if 0 \<le> x then \<lfloor>x\<rfloor> else \<lceil>x\<rceil>)"

text \<open>
  A Python float is an IEEE 754 double. It is modelled by the rational number it
  stands for, and an operation on floats by the exact operation followed by \<open>rd\<close>, the
  rounding to the nearest double with a tie going to the even mantissa: a double has 53
  mantissa bits, so from \<open>2 powi e\<close> up to \<open>2 powi (e + 1)\<close> the doubles are the
  multiples of \<open>2 powi (e - 52)\<close>, and below \<open>2 powi (- 1022)\<close> the multiples of
  \<open>2 powi (- 1074)\<close>. \<open>ilog2 x\<close> is the \<open>e\<close> with \<open>2 powi e \<le> x < 2 powi (e + 1)\<close>,
  found from the bit lengths of numerator and denominator. Infinities and NaN are left
  out: the times and percentages of a quiz stay far below the overflow threshold
  \<open>2 powi 1024\<close>.
  The one float comparison kept exact is the accuracy of the difficulty adapter: the
  correctly rounded quotient \<^verbatim>\<open>c / n\<close> compares with the double 0.8 (or 0.4) exactly
  as the rational quotient compares with 4/5 (or 2/5) as long as \<open>n\<close> stays below
  \<open>10 ^ 15\<close>, since a quotient other than 4/5 is at least \<open>1 / (5 * n)\<close> away from it.
\<close>

definition ilog2 :: "rat \<Rightarrow> int" where
  "ilog2 x =
     (let (p, q) = quotient_of x; d = bitlen p - bitlen q
      in if 2 powi d \<le> x then d else d - 1)"

definition round_half_even :: "rat \<Rightarrow> int" where
  "round_half_even y =
     (let f = \<lfloor>y\<rfloor>; d = y - of_int f
      in if d < 1 / 2 then f else if 1 / 2 < d then f + 1
         else if even f then f else f + 1)"

definition rd :: "rat \<Rightarrow> rat" where
  "rd x =
     (if x = 0 then 0
      else (let e = max (ilog2 \<bar>x\<bar>) (- 1022); q = 2 powi (e - 52)
            in sgn x * of_int (round_half_even (\<bar>x\<bar> / q)) * q))"

text \<open>
  \<^verbatim>\<open>round(x, 2)\<close> on a float: the exact value is rounded to two decimals, a tie going
  to the even neighbour, and the decimal result is converted to the nearest double.
\<close>

definition py_round2 :: "rat \<Rightarrow> rat" where
  "py_round2 x = rd (of_int (round_half_even (x * 100)) / 100)"

text \<open>
  \<^verbatim>\<open>sum(xs)\<close> on a list of floats belongs to the interpreter: CPython adds from left to
  right and rounds every addition, and from version 3.12 on it also carries the rounding
  errors along and adds them at the end. The engine therefore takes the summation as a
  parameter \<open>fsum\<close>; \<open>sum_in_order\<close> is the plain left-to-right summation, which every
  version computes on lists of at most two floats.
\<close>

definition sum_in_order :: "rat list \<Rightarrow> rat" where
  "sum_in_order xs = foldl (\<lambda>a x. rd (a + x)) 0 xs"

section \<open>The store (\<^verbatim>\<open>database.py\<close>)\<close>

text \<open>
  The tables the engine touches. \<open>questions\<close> keeps the rows in table order;
  \<open>user_question_history\<close> has the primary key (user, question) and holds
  \<^verbatim>\<open>last_attempted\<close>; \<open>active_quizzes\<close> has the primary key \<^verbatim>\<open>session_id\<close>.
  \<open>clock\<close> is what \<^verbatim>\<open>CURRENT_TIMESTAMP\<close> yields. \<open>accepts_writes\<close> says whether the
  store commits a write during the call at hand (a locked or unreachable store raises
  instead); reads are taken to succeed. \<open>select_log\<close> is a ghost trace of the
  question-selection queries issued, (user, chapter, difficulty filter) each.
\<close>

record question =
  question_id :: int
  q_chapter_id :: int
  question_text :: string
  option_a :: string
  option_b :: string
  option_c :: string
  option_d :: string
  correct_option :: string
  difficulty :: int
  explanation :: "string option"

record attempt =
  a_user_id :: int
  a_chapter_id :: int
  a_question_id :: int
  a_user_answer :: string
  a_is_correct :: bool
  a_response_time :: rat
  a_difficulty :: int
  a_points_earned :: int
  a_attempted_at :: nat

record user_row =
  username :: string
  total_points :: int
  u_total_questions :: int
  correct_answers :: int
  average_response_time :: "rat option"

record chapter_row =
  c_chapter_id :: int
  c_name :: string

record active_quiz_row =
  aq_user_id :: int
  aq_chapter_id :: int
  aq_current_difficulty :: int
  aq_total_questions :: int
  aq_started_at :: nat

record database =
  chapters :: "chapter_row list"
  questions :: "question list"
  users :: "int \<rightharpoonup> user_row"
  user_question_history :: "(int \<times> int) \<rightharpoonup> nat"
  quiz_attempts :: "attempt list"
  active_quizzes :: "string \<rightharpoonup> active_quiz_row"
  clock :: nat
  accepts_writes :: bool
  select_log :: "(int \<times> int \<times> int option) list"



text \<open>
  \<^verbatim>\<open>DatabaseManager.get_next_question\<close>. The candidates are the questions of the chapter,
  restricted to the difficulty when the argument is truthy (\<^verbatim>\<open>if difficulty:\<close>, so neither
  \<^verbatim>\<open>None\<close> nor 0). They are ordered by: never attempted by the user first, then
  \<^verbatim>\<open>last_attempted\<close> ascending, then \<^verbatim>\<open>RANDOM()\<close>; \<open>rnd qid\<close> is the number
  \<^verbatim>\<open>RANDOM()\<close> draws for the row of question \<open>qid\<close>. \<^verbatim>\<open>LIMIT 1\<close> keeps the first row.
\<close>

definition candidates :: "database \<Rightarrow> int \<Rightarrow> int option \<Rightarrow> question list" where
  "candidates d cid diff =
     filter (\<lambda>q. q_chapter_id q = cid \<and>
                 (case diff of None \<Rightarrow> True
                  | Some k \<Rightarrow> if k \<noteq> 0 then difficulty q = k else True))
            (questions d)"

definition order_key :: "database \<Rightarrow> int \<Rightarrow> (int \<Rightarrow> int) \<Rightarrow> question \<Rightarrow> nat \<times> nat \<times> int" where
  "order_key d uid rnd q =
     (case user_question_history d (uid, question_id q) of
        None \<Rightarrow> (0, 0, rnd (question_id q))
      | Some t \<Rightarrow> (1, t, rnd (question_id q)))"

definition db_get_next_question ::
  "database \<Rightarrow> (int \<Rightarrow> int) \<Rightarrow> int \<Rightarrow> int \<Rightarrow> int option \<Rightarrow> question option \<times> database" where
  "db_get_next_question d rnd uid cid diff =
     (let row = (case sort_key (order_key d uid rnd) (candidates d cid diff) of
                   [] \<Rightarrow> None
                 | q # _ \<Rightarrow> Some q)
      in (row, d\<lparr>select_log := select_log d @ [(uid, cid, diff)]\<rparr>))"

text \<open>
  \<^verbatim>\<open>record_quiz_attempt\<close>: one transaction that appends the attempt, replaces the
  history row of (user, question) with the current timestamp and updates the user's
  cumulative statistics. The \<^verbatim>\<open>UPDATE\<close> reads the old column values; SQLite's division
  by zero yields \<^verbatim>\<open>NULL\<close>, and \<^verbatim>\<open>NULL\<close> propagates through arithmetic. The average
  is a \<^verbatim>\<open>REAL\<close>, so its arithmetic is that of doubles.
\<close>

definition update_user_stats :: "user_row \<Rightarrow> int \<Rightarrow> bool \<Rightarrow> rat \<Rightarrow> user_row" where
  "update_user_stats u points is_correct response_time =
     u\<lparr>total_points := total_points u + points,
       u_total_questions := u_total_questions u + 1,
       correct_answers := correct_answers u + (if is_correct then 1 else 0),
       average_response_time :=
         (case average_response_time u of
            None \<Rightarrow> None
          | Some avg \<Rightarrow>
              if u_total_questions u = 0 then None
              else Some (rd (rd (rd (avg * of_int (u_total_questions u - 1)) + response_time)
                              / of_int (u_total_questions u))))\<rparr>"

definition record_quiz_attempt ::
  "database \<Rightarrow> int \<Rightarrow> int \<Rightarrow> int \<Rightarrow> string \<Rightarrow> bool \<Rightarrow> rat \<Rightarrow> int \<Rightarrow> int \<Rightarrow> unit result \<times> database" where
  "record_quiz_attempt d uid cid qid user_answer is_correct response_time diff points =
     (if \<not> accepts_writes d then (Raised StorageError, d)
      else
        (Returned (),
         d\<lparr>quiz_attempts := quiz_attempts d @
              [\<lparr>a_user_id = uid, a_chapter_id = cid, a_question_id = qid,
                a_user_answer = user_answer, a_is_correct = is_correct,
                a_response_time = response_time, a_difficulty = diff,
                a_points_earned = points, a_attempted_at = clock d\<rparr>],
           user_question_history := (user_question_history d)((uid, qid) \<mapsto> clock d),
           users := (case users d uid of
                       None \<Rightarrow> users d
                     | Some u \<Rightarrow>
                         (users d)(uid \<mapsto> update_user_stats u points is_correct response_time))\<rparr>))"

text \<open>
  \<^verbatim>\<open>cleanup_old_sessions\<close>: \<^verbatim>\<open>DELETE FROM active_quizzes WHERE started_at < ?\<close>; \<open>cutoff\<close>
  is the bound parameter, the instant thirty minutes before the call on the scale of
  \<^verbatim>\<open>started_at\<close>. No other table is touched.
\<close>

definition cleanup_old_sessions :: "database \<Rightarrow> nat \<Rightarrow> unit result \<times> database" where
  "cleanup_old_sessions d cutoff =
     (if \<not> accepts_writes d then (Raised StorageError, d)
      else
        (Returned (),
         d\<lparr>active_quizzes :=
              (\<lambda>sid. case active_quizzes d sid of
                        None \<Rightarrow> None
                      | Some r \<Rightarrow> if aq_started_at r < cutoff then None else Some r)\<rparr>))"

section \<open>Configuration (\<^verbatim>\<open>config.py\<close>)\<close>

definition POINTS_EASY :: int where "POINTS_EASY = 1"
definition POINTS_MEDIUM :: int where "POINTS_MEDIUM = 2"
definition POINTS_HARD :: int where "POINTS_HARD = 3"

definition DIFFICULTY_THRESHOLD_UP :: rat where "DIFFICULTY_THRESHOLD_UP = 8 / 10"
definition DIFFICULTY_THRESHOLD_DOWN :: rat where "DIFFICULTY_THRESHOLD_DOWN = 4 / 10"

section \<open>The session engine (\<^verbatim>\<open>quiz_system.py\<close>)\<close>

text \<open>
  A session is the dictionary \<^verbatim>\<open>start_quiz\<close> builds. Its two per-difficulty dictionaries
  are association lists in insertion order, \<^verbatim>\<open>{1: 0, 2: 0, 3: 0}\<close> at the start. The
  response times are floats, in seconds; the start time is a point in time, in seconds.
\<close>

record session =
  user_id :: int
  chapter_id :: int
  current_question :: int
  total_questions :: int
  score :: int
  correct_streak :: int
  wrong_streak :: int
  difficulty_mode :: string
  current_difficulty :: int
  questions_by_difficulty :: "(int \<times> int) list"
  correct_by_difficulty :: "(int \<times> int) list"
  response_times :: "rat list"
  started_at :: rat

record quiz_system =
  db :: database
  active_sessions :: "string \<rightharpoonup> session"

record final_stats =
  st_total_questions :: int
  st_correct_answers :: int
  accuracy :: rat
  final_score :: int
  time_bonus :: int
  avg_response_time :: rat
  difficulty_breakdown :: "(int \<times> int) list"
  quiz_duration :: rat

record response =
  is_correct :: bool
  correct_answer :: string
  r_explanation :: "string option"
  points_earned :: int
  current_score :: int
  question_number :: int
  r_total_questions :: int
  streak :: int
  quiz_complete :: "bool option"
  r_final_stats :: "final_stats option"

record asked_question =
  asked :: question
  session_id :: string
  ask_question_number :: int
  ask_total_questions :: int
  ask_current_difficulty :: int

datatype submit_reply = SubmitError string | Response response

datatype end_reply = EndError string | QuizEnded final_stats

text \<open>\<^verbatim>\<open>d[k] += 1\<close> on a dictionary: \<^verbatim>\<open>KeyError\<close> (here \<open>None\<close>) when the key is absent.\<close>

definition dict_incr :: "(int \<times> int) list \<Rightarrow> int \<Rightarrow> (int \<times> int) list option" where
  "dict_incr d k =
     (case map_of d k of
        None \<Rightarrow> None
      | Some _ \<Rightarrow> Some (map (\<lambda>(k', v). if k' = k then (k', v + 1) else (k', v)) d))"

text \<open>
  \<^verbatim>\<open>start_quiz\<close>. \<open>sid\<close> is the token \<^verbatim>\<open>uuid.uuid4()\<close> draws and \<open>now\<close> the value of
  \<^verbatim>\<open>datetime.now()\<close>. The marker row is inserted before the session enters
  \<^verbatim>\<open>active_sessions\<close>. Nothing checks the mode or the number of questions.
\<close>

definition start_quiz ::
  "quiz_system \<Rightarrow> string \<Rightarrow> rat \<Rightarrow> int \<Rightarrow> int \<Rightarrow> string \<Rightarrow> int \<Rightarrow> string result \<times> quiz_system" where
  "start_quiz qs sid now uid cid difficulty_arg n_questions =
     (case (if difficulty_arg = ''mix'' then Some 1 else py_int_of_str difficulty_arg) of
        None \<Rightarrow> (Raised ValueError, qs)
      | Some cur \<Rightarrow>
          if \<not> accepts_writes (db qs) then (Raised StorageError, qs)
          else if active_quizzes (db qs) sid \<noteq> None then (Raised IntegrityError, qs)
          else
            (Returned sid,
             qs\<lparr>db := (db qs)\<lparr>active_quizzes := (active_quizzes (db qs))(sid \<mapsto>
                      \<lparr>aq_user_id = uid, aq_chapter_id = cid, aq_current_difficulty = cur,
                       aq_total_questions = n_questions, aq_started_at = clock (db qs)\<rparr>)\<rparr>,
                active_sessions := (active_sessions qs)(sid \<mapsto>
                      \<lparr>user_id = uid, chapter_id = cid, current_question = 0,
                       total_questions = n_questions, score = 0, correct_streak = 0,
                       wrong_streak = 0, difficulty_mode = difficulty_arg,
                       current_difficulty = cur,
                       questions_by_difficulty = [(1, 0), (2, 0), (3, 0)],
                       correct_by_difficulty = [(1, 0), (2, 0), (3, 0)],
                       response_times = [], started_at = now\<rparr>)\<rparr>))"

text \<open>
  \<^verbatim>\<open>QuizSystem.get_next_question\<close>. \<open>rnd1\<close> and \<open>rnd2\<close> are the draws of \<^verbatim>\<open>RANDOM()\<close>
  in the first and in the second query.
\<close>

definition get_next_question ::
  "quiz_system \<Rightarrow> (int \<Rightarrow> int) \<Rightarrow> (int \<Rightarrow> int) \<Rightarrow> string \<Rightarrow> asked_question option \<times> quiz_system" where
  "get_next_question qs rnd1 rnd2 sid =
     (case active_sessions qs sid of
        None \<Rightarrow> (None, qs)
      | Some s \<Rightarrow>
          if current_question s \<ge> total_questions s then (None, qs)
          else
            (let (q1, d1) = db_get_next_question (db qs) rnd1 (user_id s) (chapter_id s)
                              (Some (current_difficulty s));
                 (q2, d2) = (if q1 = None
                             then db_get_next_question d1 rnd2 (user_id s) (chapter_id s) None
                             else (q1, d1))
             in (map_option (\<lambda>q. \<lparr>asked = q, session_id = sid,
                                    ask_question_number = current_question s + 1,
                                    ask_total_questions = total_questions s,
                                    ask_current_difficulty = current_difficulty s\<rparr>) q2,
                 qs\<lparr>db := d2\<rparr>)))"

text \<open>
  The block "Update session statistics" of \<^verbatim>\<open>submit_answer\<close>, in the order of the
  source. The session is mutated in place, so a \<^verbatim>\<open>KeyError\<close> on a difficulty that is no
  key of the dictionaries leaves the updates made before it.
\<close>

definition update_session_statistics ::
  "session \<Rightarrow> question \<Rightarrow> bool \<Rightarrow> int \<Rightarrow> rat \<Rightarrow> py_exception option \<times> session" where
  "update_session_statistics s q correct points response_time =
     (let s1 = s\<lparr>current_question := current_question s + 1\<rparr> in
      case dict_incr (questions_by_difficulty s1) (difficulty q) of
        None \<Rightarrow> (Some KeyError, s1)
      | Some qbd \<Rightarrow>
          (let s2 = s1\<lparr>questions_by_difficulty := qbd,
                       response_times := response_times s1 @ [response_time]\<rparr> in
           if correct then
             (let s3 = s2\<lparr>score := score s2 + points,
                          correct_streak := correct_streak s2 + 1,
                          wrong_streak := 0\<rparr> in
              case dict_incr (correct_by_difficulty s3) (difficulty q) of
                None \<Rightarrow> (Some KeyError, s3)
              | Some cbd \<Rightarrow> (None, s3\<lparr>correct_by_difficulty := cbd\<rparr>))
           else (None, s2\<lparr>correct_streak := 0, wrong_streak := wrong_streak s2 + 1\<rparr>)))"

text \<open>\<^verbatim>\<open>_adjust_difficulty\<close>, on the session it looks up.\<close>

definition adjust_difficulty :: "session \<Rightarrow> session result" where
  "adjust_difficulty s =
     (let current_diff = current_difficulty s;
          recent_window = min 5 (current_question s) in
      if recent_window < 3 then Returned s
      else
        (case map_of (questions_by_difficulty s) current_diff of
           None \<Rightarrow> Raised KeyError
         | Some n \<Rightarrow>
             if n \<ge> 3 then
               (case map_of (correct_by_difficulty s) current_diff of
                  None \<Rightarrow> Raised KeyError
                | Some c \<Rightarrow>
                    (let acc = (of_int c / of_int n :: rat) in
                     if acc \<ge> DIFFICULTY_THRESHOLD_UP \<and> current_diff < 3
                     then Returned (s\<lparr>current_difficulty := min 3 (current_diff + 1)\<rparr>)
                     else if acc \<le> DIFFICULTY_THRESHOLD_DOWN \<and> current_diff > 1
                     then Returned (s\<lparr>current_difficulty := max 1 (current_diff - 1)\<rparr>)
                     else Returned s))
             else Returned s))"

text \<open>\<^verbatim>\<open>_cleanup_session\<close>: the entry leaves \<^verbatim>\<open>active_sessions\<close>, then the marker row is deleted.\<close>

definition cleanup_session :: "quiz_system \<Rightarrow> string \<Rightarrow> unit result \<times> quiz_system" where
  "cleanup_session qs sid =
     (let qs1 = qs\<lparr>active_sessions := (active_sessions qs)(sid := None)\<rparr> in
      if \<not> accepts_writes (db qs1) then (Raised StorageError, qs1)
      else (Returned (),
            qs1\<lparr>db := (db qs1)\<lparr>active_quizzes := (active_quizzes (db qs1))(sid := None)\<rparr>\<rparr>))"

text \<open>
  \<^verbatim>\<open>_calculate_final_stats\<close>: the numbers first, then the clean-up. The quotient of two
  integers is the double nearest to the exact quotient; the sum of the response times
  is the interpreter's \<open>fsum\<close>; every further float operation rounds. The duration is
  the quotient of the elapsed microseconds by a million, again the nearest double.
\<close>

definition mean_response_time :: "(rat list \<Rightarrow> rat) \<Rightarrow> session \<Rightarrow> rat" where
  "mean_response_time fsum s =
     (if response_times s \<noteq> []
      then rd (fsum (response_times s) / of_nat (length (response_times s))) else 0)"

definition stats_of :: "(rat list \<Rightarrow> rat) \<Rightarrow> session \<Rightarrow> rat \<Rightarrow> final_stats" where
  "stats_of fsum s now =
     (let answered = current_question s;
          total_correct = sum_list (map snd (correct_by_difficulty s));
          acc = (if answered > 0
                 then rd (rd (of_int total_correct / of_int answered) * 100) else 0);
          avg = mean_response_time fsum s;
          bonus = (if avg < 10 then min 50 (py_trunc (rd (rd (10 - avg) * 5))) else 0)
      in \<lparr>st_total_questions = answered, st_correct_answers = total_correct,
          accuracy = py_round2 acc, final_score = score s + bonus, time_bonus = bonus,
          avg_response_time = py_round2 avg,
          difficulty_breakdown = questions_by_difficulty s,
          quiz_duration = rd (now - started_at s)\<rparr>)"

definition calculate_final_stats ::
  "(rat list \<Rightarrow> rat) \<Rightarrow> quiz_system \<Rightarrow> string \<Rightarrow> rat \<Rightarrow>
   final_stats result \<times> quiz_system" where
  "calculate_final_stats fsum qs sid now =
     (case active_sessions qs sid of
        None \<Rightarrow> (Raised KeyError, qs)
      | Some s \<Rightarrow>
          (case cleanup_session qs sid of
             (Raised e, qs') \<Rightarrow> (Raised e, qs')
           | (Returned _, qs') \<Rightarrow> (Returned (stats_of fsum s now), qs')))"

text \<open>
  \<^verbatim>\<open>submit_answer\<close>. The question is read by its primary key. The points are looked up
  only for a correct answer (\<^verbatim>\<open>points_map[d] if is_correct else 0\<close>). The session is
  updated in place before the attempt is recorded, so the state returned with an
  exception of the recorder holds the updated session. \<open>now\<close> is the clock read by the
  final statistics and \<open>fsum\<close> the interpreter's summation of floats. The response time is
  a float, given by its value.
\<close>

definition points_map :: "(int \<times> int) list" where
  "points_map = [(1, POINTS_EASY), (2, POINTS_MEDIUM), (3, POINTS_HARD)]"

definition submit_answer ::
  "(rat list \<Rightarrow> rat) \<Rightarrow> quiz_system \<Rightarrow> string \<Rightarrow> int \<Rightarrow> string \<Rightarrow> rat \<Rightarrow> rat \<Rightarrow>
   submit_reply result \<times> quiz_system" where
  "submit_answer fsum qs sid qid user_answer response_time now =
     (case active_sessions qs sid of
        None \<Rightarrow> (Returned (SubmitError ''Invalid session''), qs)
      | Some s \<Rightarrow>
          (case find (\<lambda>q. question_id q = qid) (questions (db qs)) of
             None \<Rightarrow> (Returned (SubmitError ''Question not found''), qs)
           | Some q \<Rightarrow>
               (let correct = (lower user_answer = lower (correct_option q)) in
                case (if correct then map_of points_map (difficulty q) else Some 0) of
                  None \<Rightarrow> (Raised KeyError, qs)
                | Some points \<Rightarrow>
                    (let (exn, s') = update_session_statistics s q correct points response_time;
                         qs1 = qs\<lparr>active_sessions := (active_sessions qs)(sid \<mapsto> s')\<rparr> in
                     case exn of
                       Some e \<Rightarrow> (Raised e, qs1)
                     | None \<Rightarrow>
                         (case record_quiz_attempt (db qs1) (user_id s') (chapter_id s') qid
                                 user_answer correct response_time (difficulty q) points of
                            (Raised e, d) \<Rightarrow> (Raised e, qs1\<lparr>db := d\<rparr>)
                          | (Returned _, d) \<Rightarrow>
                              (let qs2 = qs1\<lparr>db := d\<rparr> in
                               case (if difficulty_mode s' = ''mix''
                                     then adjust_difficulty s' else Returned s') of
                                 Raised e \<Rightarrow> (Raised e, qs2)
                               | Returned s'' \<Rightarrow>
                                   (let qs3 = qs2\<lparr>active_sessions :=
                                                   (active_sessions qs2)(sid \<mapsto> s'')\<rparr>;
                                        resp = \<lparr>is_correct = correct,
                                                correct_answer = correct_option q,
                                                r_explanation = explanation q,
                                                points_earned = points,
                                                current_score = score s'',
                                                question_number = current_question s'',
                                                r_total_questions = total_questions s'',
                                                streak = correct_streak s'',
                                                quiz_complete = None,
                                                r_final_stats = None\<rparr> in
                                    if current_question s'' \<ge> total_questions s'' then
                                      (case calculate_final_stats fsum qs3 sid now of
                                         (Raised e, qs4) \<Rightarrow> (Raised e, qs4)
                                       | (Returned st, qs4) \<Rightarrow>
                                           (Returned (Response (resp\<lparr>quiz_complete := Some True,
                                                                      r_final_stats := Some st\<rparr>)),
                                            qs4))
                                    else (Returned (Response resp), qs3))))))))"

text \<open>\<^verbatim>\<open>get_session_info\<close>: \<^verbatim>\<open>self.active_sessions.get(session_id)\<close>.\<close>

definition get_session_info :: "quiz_system \<Rightarrow> string \<Rightarrow> session option" where
  "get_session_info qs sid = active_sessions qs sid"

text \<open>\<^verbatim>\<open>end_quiz\<close>.\<close>

definition end_quiz ::
  "(rat list \<Rightarrow> rat) \<Rightarrow> quiz_system \<Rightarrow> string \<Rightarrow> rat \<Rightarrow> end_reply result \<times> quiz_system" where
  "end_quiz fsum qs sid now =
     (case active_sessions qs sid of
        None \<Rightarrow> (Returned (EndError ''Invalid session''), qs)
      | Some _ \<Rightarrow>
          (case calculate_final_stats fsum qs sid now of
             (Raised e, qs') \<Rightarrow> (Raised e, qs')
           | (Returned st, qs') \<Rightarrow> (Returned (QuizEnded st), qs')))"

section \<open>The command that starts a quiz (\<^verbatim>\<open>bot.py\<close>)\<close>



text \<open>
  The periodic task \<^verbatim>\<open>cleanup_sessions\<close> of the bot (every 30 minutes): it calls the
  store's \<^verbatim>\<open>cleanup_old_sessions\<close> and nothing else, so the engine's \<^verbatim>\<open>active_sessions\<close>
  is not among what it changes.
\<close>

definition cleanup_sessions :: "quiz_system \<Rightarrow> nat \<Rightarrow> unit result \<times> quiz_system" where
  "cleanup_sessions qs cutoff =
     (case cleanup_old_sessions (db qs) cutoff of (r, d) \<Rightarrow> (r, qs\<lparr>db := d\<rparr>))"

section \<open>Reachable states\<close>

text \<open>
  The engine starts with no session. Between two calls the store may change in any way
  (other commands, the administrators, the periodic sweep, outages).
\<close>

inductive reachable :: "quiz_system \<Rightarrow> bool" where
  r_init: "reachable \<lparr>db = d, active_sessions = Map.empty\<rparr>"
| r_store: "reachable qs \<Longrightarrow> reachable (qs\<lparr>db := d\<rparr>)"
| r_start: "reachable qs \<Longrightarrow> reachable (snd (start_quiz qs sid now uid cid mode n))"
| r_next: "reachable qs \<Longrightarrow> reachable (snd (get_next_question qs rnd1 rnd2 sid))"
| r_submit: "reachable qs \<Longrightarrow> reachable (snd (submit_answer fsum qs sid qid ans rt now))"
| r_end: "reachable qs \<Longrightarrow> reachable (snd (end_quiz fsum qs sid now))"

section \<open>Invariants and the adapter as the specification words it\<close>

text \<open>The entry of a per-difficulty dictionary, 0 for a level that is no key.\<close>

definition tally :: "(int \<times> int) list \<Rightarrow> int \<Rightarrow> int" where
  "tally d k = (case map_of d k of None \<Rightarrow> 0 | Some v \<Rightarrow> v)"

text \<open>
  What every live session satisfies: both dictionaries keep the keys 1, 2, 3; the
  per-difficulty counts are not negative and add up to at most the number of answers;
  an adaptive session is at level 1, 2 or 3; one of the two streaks is 0.
\<close>

definition session_inv :: "session \<Rightarrow> bool" where
  "session_inv s =
     (map fst (questions_by_difficulty s) = [1, 2, 3] \<and>
      map fst (correct_by_difficulty s) = [1, 2, 3] \<and>
      list_all (\<lambda>v. 0 \<le> v) (map snd (questions_by_difficulty s)) \<and>
      sum_list (map snd (questions_by_difficulty s)) \<le> current_question s \<and>
      (difficulty_mode s = ''mix'' \<longrightarrow> current_difficulty s \<in> {1, 2, 3}) \<and>
      (correct_streak s = 0 \<or> wrong_streak s = 0))"

definition all_sessions :: "(session \<Rightarrow> bool) \<Rightarrow> quiz_system \<Rightarrow> bool" where
  "all_sessions P qs = (\<forall>x s. active_sessions qs x = Some s \<longrightarrow> P s)"

text \<open>
  The difficulty adapter in the words of the specification: with \<open>n\<close> answers at the
  current level \<open>d\<close>, \<open>c\<close> of them correct, nothing moves below three answers; from
  three on, accuracy at least 0.8 promotes below level 3, accuracy at most 0.4 demotes
  above level 1.
\<close>

definition adapted_difficulty :: "int \<Rightarrow> int \<Rightarrow> int \<Rightarrow> int" where
  "adapted_difficulty d c n =
     (if n \<ge> 3 then
        (if (of_int c / of_int n :: rat) \<ge> 8 / 10 \<and> d < 3 then d + 1
         else if (of_int c / of_int n :: rat) \<le> 4 / 10 \<and> d > 1 then d - 1
         else d)
      else d)"

section \<open>A small store and sessions to run the engine on\<close>

definition example_question :: question where
  "example_question =
     \<lparr>question_id = 1, q_chapter_id = 7, question_text = ''2 + 2'', option_a = ''3'',
      option_b = ''4'', option_c = ''5'', option_d = ''6'', correct_option = ''B'',
      difficulty = 1, explanation = None\<rparr>"

definition example_db :: database where
  "example_db =
     \<lparr>chapters = [\<lparr>c_chapter_id = 7, c_name = ''Algebra''\<rparr>],
      questions = [example_question], users = Map.empty,
      user_question_history = Map.empty, quiz_attempts = [],
      active_quizzes = Map.empty, clock = 0, accepts_writes = True, select_log = []\<rparr>"

definition example_session :: "rat list \<Rightarrow> session" where
  "example_session rts =
     \<lparr>user_id = 5, chapter_id = 7, current_question = 1, total_questions = 3,
      score = 1, correct_streak = 1, wrong_streak = 0, difficulty_mode = ''mix'',
      current_difficulty = 1,
      questions_by_difficulty = [(1, 1), (2, 0), (3, 0)],
      correct_by_difficulty = [(1, 1), (2, 0), (3, 0)],
      response_times = rts, started_at = 0\<rparr>"

definition example_engine :: "rat list \<Rightarrow> quiz_system" where
  "example_engine rts = \<lparr>db = example_db, active_sessions = [''tok'' \<mapsto> example_session rts]\<rparr>"

text \<open>The same engine on a store that rejects writes.\<close>

definition offline_engine :: quiz_system where
  "offline_engine =
     \<lparr>db = example_db\<lparr>accepts_writes := False\<rparr>,
      active_sessions = [''tok'' \<mapsto> example_session [3]]\<rparr>"

text \<open>
  A run of one adaptive session of user 5 on chapter 7: \<open>quiz_state n k d rts atts\<close> is
  the engine after \<open>k\<close> correct answers, with target \<open>n\<close>, at difficulty \<open>d\<close>, with the
  response times \<open>rts\<close> and the recorded attempts \<open>atts\<close>.
\<close>

definition fresh_engine :: quiz_system where
  "fresh_engine = \<lparr>db = example_db, active_sessions = Map.empty\<rparr>"

definition example_attempt :: attempt where
  "example_attempt =
     \<lparr>a_user_id = 5, a_chapter_id = 7, a_question_id = 1, a_user_answer = ''b'',
      a_is_correct = True, a_response_time = 4, a_difficulty = 1, a_points_earned = 1,
      a_attempted_at = 0\<rparr>"

definition quiz_db :: "int \<Rightarrow> attempt list \<Rightarrow> database" where
  "quiz_db n atts =
     example_db\<lparr>active_quizzes := [''tok'' \<mapsto>
                   \<lparr>aq_user_id = 5, aq_chapter_id = 7, aq_current_difficulty = 1,
                    aq_total_questions = n, aq_started_at = 0\<rparr>],
                 quiz_attempts := atts,
                 user_question_history := (if atts = [] then Map.empty else [(5, 1) \<mapsto> 0])\<rparr>"

definition quiz_session :: "int \<Rightarrow> int \<Rightarrow> int \<Rightarrow> rat list \<Rightarrow> session" where
  "quiz_session n k d rts =
     \<lparr>user_id = 5, chapter_id = 7, current_question = k, total_questions = n,
      score = k, correct_streak = k, wrong_streak = 0, difficulty_mode = ''mix'',
      current_difficulty = d,
      questions_by_difficulty = [(1, k), (2, 0), (3, 0)],
      correct_by_difficulty = [(1, k), (2, 0), (3, 0)],
      response_times = rts, started_at = 0\<rparr>"

definition quiz_state :: "int \<Rightarrow> int \<Rightarrow> int \<Rightarrow> rat list \<Rightarrow> attempt list \<Rightarrow> quiz_system" where
  "quiz_state n k d rts atts =
     \<lparr>db = quiz_db n atts, active_sessions = [''tok'' \<mapsto> quiz_session n k d rts]\<rparr>"

text \<open>The engine after a session was started in the fixed mode "2" with target 5.\<close>

definition fixed_engine :: quiz_system where
  "fixed_engine =
     \<lparr>db = example_db\<lparr>active_quizzes := [''tok'' \<mapsto>
                   \<lparr>aq_user_id = 5, aq_chapter_id = 7, aq_current_difficulty = 2,
                    aq_total_questions = 5, aq_started_at = 0\<rparr>]\<rparr>,
      active_sessions = [''tok'' \<mapsto>
         \<lparr>user_id = 5, chapter_id = 7, current_question = 0, total_questions = 5,
          score = 0, correct_streak = 0, wrong_streak = 0, difficulty_mode = ''2'',
          current_difficulty = 2,
          questions_by_difficulty = [(1, 0), (2, 0), (3, 0)],
          correct_by_difficulty = [(1, 0), (2, 0), (3, 0)],
          response_times = [], started_at = 0\<rparr>]\<rparr>"

text \<open>The example engine on a store without questions.\<close>

definition barren_engine :: quiz_system where
  "barren_engine =
     \<lparr>db = example_db\<lparr>questions := []\<rparr>,
      active_sessions = [''tok'' \<mapsto> example_session [3]]\<rparr>"

text \<open>
  The run with target 1 after the store rejected the record of the first answer: the
  session has one answer, which is its target, and is still live.
\<close>

definition stalled_engine :: quiz_system where
  "stalled_engine =
     \<lparr>db = (quiz_db 1 [])\<lparr>accepts_writes := False\<rparr>,
      active_sessions = [''tok'' \<mapsto> quiz_session 1 1 1 [4]]\<rparr>"

text \<open>The float that the literal \<^verbatim>\<open>6.2\<close> denotes.\<close>

definition float_6_2 :: rat where
  "float_6_2 = rd (62 / 10)"

section \<open>Runs of submit_answer\<close>


fun is_success :: "submit_reply result \<Rightarrow> bool" where
  "is_success (Returned (Response _)) = True"
| "is_success _ = False"



section \<open>Rounding to the nearest double\<close>

text \<open>
  \<open>ilog2\<close> finds the binade of a positive rational, so \<open>rd\<close> can be evaluated from any
  \<open>e\<close> with \<open>2 powi e \<le> \<bar>x\<bar> < 2 powi (e + 1)\<close>; a number \<open>m * 2 powi k\<close> with
  \<open>\<bar>m\<bar> < 2 ^ 53\<close> and \<open>- 1074 \<le> k\<close> is a double and \<open>rd\<close> leaves it as it is.
\<close>

lemma powi_two_pos: "0 < (2::rat) powi k"
  by simp

lemma powi_two_less: "a < b \<Longrightarrow> (2::rat) powi a < 2 powi b"
  by (rule power_int_strict_increasing) simp_all

lemma powi_two_exponent_unique:
  assumes "(2::rat) powi a \<le> x" "x < 2 powi (a + 1)" "2 powi b \<le> x" "x < 2 powi (b + 1)"
  shows "a = b"
proof (rule ccontr)
  assume "a \<noteq> b"
  then consider "a + 1 \<le> b" | "b + 1 \<le> a" by linarith
  then show False
  proof cases
    case 1
    then have "(2::rat) powi (a + 1) \<le> 2 powi b"
      by (intro power_int_increasing) simp_all
    with assms show False by linarith
  next
    case 2
    then have "(2::rat) powi (b + 1) \<le> 2 powi a"
      by (intro power_int_increasing) simp_all
    with assms show False by linarith
  qed
qed

lemma ilog2_bounds:
  assumes "0 < x"
  shows "2 powi (ilog2 x) \<le> x \<and> x < 2 powi (ilog2 x + 1)"
proof -
  obtain p q where pq: "quotient_of x = (p, q)" by (cases "quotient_of x")
  then have q: "0 < q" and x: "x = of_int p / of_int q"
    using quotient_of_denom_pos[OF pq] quotient_of_div[OF pq] by simp_all
  with assms have p: "0 < p" by (simp add: zero_less_divide_iff)
  let ?d = "bitlen p - bitlen q"
  from bitlen_bounds[OF p] have p1: "2 ^ nat (bitlen p - 1) \<le> p" and p2: "p < 2 ^ nat (bitlen p)"
    by simp_all
  from bitlen_bounds[OF q] have q1: "2 ^ nat (bitlen q - 1) \<le> q" and q2: "q < 2 ^ nat (bitlen q)"
    by simp_all
  have bp: "1 \<le> bitlen p" using p bitlen_eq_zero_iff[of p] bitlen_nonneg[of p] by linarith
  have bq: "1 \<le> bitlen q" using q bitlen_eq_zero_iff[of q] bitlen_nonneg[of q] by linarith
  have P1: "(2::rat) powi (bitlen p - 1) \<le> of_int p"
  proof -
    have "(of_int (2 ^ nat (bitlen p - 1)) :: rat) \<le> of_int p" using p1 by (simp only: of_int_le_iff)
    then show ?thesis using bp by (simp add: power_int_def)
  qed
  have P2: "of_int p < (2::rat) powi (bitlen p)"
  proof -
    have "(of_int p :: rat) < of_int (2 ^ nat (bitlen p))" using p2 by (simp only: of_int_less_iff)
    then show ?thesis using bp by (simp add: power_int_def)
  qed
  have Q1: "(2::rat) powi (bitlen q - 1) \<le> of_int q"
  proof -
    have "(of_int (2 ^ nat (bitlen q - 1)) :: rat) \<le> of_int q" using q1 by (simp only: of_int_le_iff)
    then show ?thesis using bq by (simp add: power_int_def)
  qed
  have Q2: "of_int q < (2::rat) powi (bitlen q)"
  proof -
    have "(of_int q :: rat) < of_int (2 ^ nat (bitlen q))" using q2 by (simp only: of_int_less_iff)
    then show ?thesis using bq by (simp add: power_int_def)
  qed
  have qpos: "(0::rat) < of_int q" using q by simp
  have up: "x < 2 powi (?d + 1)"
  proof -
    have "of_int p < (2::rat) powi (?d + 1) * 2 powi (bitlen q - 1)"
      using P2 by (simp add: power_int_add[symmetric])
    also have "\<dots> \<le> 2 powi (?d + 1) * of_int q"
      using Q1 by (intro mult_left_mono) simp_all
    finally show ?thesis using qpos by (simp add: x pos_divide_less_eq)
  qed
  have low: "2 powi (?d - 1) < x"
  proof -
    have "(2::rat) powi (?d - 1) * of_int q < 2 powi (?d - 1) * 2 powi (bitlen q)"
      using Q2 by (intro mult_strict_left_mono) simp_all
    also have "\<dots> = 2 powi (bitlen p - 1)" by (simp add: power_int_add[symmetric])
    also have "\<dots> \<le> of_int p" by (rule P1)
    finally show ?thesis using qpos by (simp add: x pos_less_divide_eq)
  qed
  show ?thesis
  proof (cases "2 powi ?d \<le> x")
    case True
    then have "ilog2 x = ?d" by (simp add: ilog2_def pq)
    with True up show ?thesis by simp
  next
    case False
    then have "ilog2 x = ?d - 1" by (simp add: ilog2_def pq)
    with False low show ?thesis by simp
  qed
qed

lemma ilog2_unique:
  assumes "0 < x" "2 powi e \<le> x" "x < 2 powi (e + 1)"
  shows "ilog2 x = e"
  using ilog2_bounds[OF assms(1)] assms(2,3)
  by (auto intro: powi_two_exponent_unique)

lemma rd_eq:
  assumes "x \<noteq> 0" "2 powi e \<le> \<bar>x\<bar>" "\<bar>x\<bar> < 2 powi (e + 1)" "- 1022 \<le> e"
  shows "rd x = sgn x * of_int (round_half_even (\<bar>x\<bar> / 2 powi (e - 52))) * 2 powi (e - 52)"
proof -
  from assms(1) have "0 < \<bar>x\<bar>" by simp
  from ilog2_unique[OF this assms(2,3)] assms(4) have "max (ilog2 \<bar>x\<bar>) (- 1022) = e" by simp
  with assms(1) show ?thesis by (simp add: rd_def Let_def)
qed

lemma round_half_even_int [simp]: "round_half_even (of_int n) = n"
  by (simp add: round_half_even_def)

lemma round_half_even_nonneg: "0 \<le> y \<Longrightarrow> 0 \<le> round_half_even y"
  by (auto simp: round_half_even_def Let_def)

lemma rd_nonneg: "0 \<le> x \<Longrightarrow> 0 \<le> rd x"
  by (auto simp: rd_def Let_def intro!: mult_nonneg_nonneg round_half_even_nonneg divide_nonneg_pos)

lemma rd_exact:
  assumes "x = of_int m * 2 powi k" and "\<bar>m\<bar> < 2 ^ 53" and "- 1074 \<le> k"
  shows "rd x = x"
proof (cases "x = 0")
  case True
  then show ?thesis by (simp add: rd_def)
next
  case False
  with assms(1) have m0: "m \<noteq> 0" by auto
  have ax: "\<bar>x\<bar> = of_int \<bar>m\<bar> * 2 powi k" by (simp add: assms(1) abs_mult)
  define e where "e = max (ilog2 \<bar>x\<bar>) (- 1022)"
  have pos: "0 < \<bar>x\<bar>" using False by simp
  have "2 powi (ilog2 \<bar>x\<bar>) \<le> \<bar>x\<bar>" using ilog2_bounds[OF pos] by simp
  also have "\<bar>x\<bar> < 2 ^ 53 * 2 powi k"
  proof -
    have "(of_int \<bar>m\<bar> :: rat) < of_int (2 ^ 53)" using assms(2) by (simp only: of_int_less_iff)
    then show ?thesis unfolding ax by (intro mult_strict_right_mono) simp_all
  qed
  also have "\<dots> = 2 powi (53 + k)" by (simp add: power_int_add)
  finally have "ilog2 \<bar>x\<bar> < 53 + k"
    by (metis not_less power_int_increasing one_le_numeral)
  with assms(3) have j: "0 \<le> k - (e - 52)" by (simp add: e_def)
  have q: "\<bar>x\<bar> / 2 powi (e - 52) = of_int (\<bar>m\<bar> * 2 ^ nat (k - (e - 52)))"
  proof -
    have "\<bar>x\<bar> / 2 powi (e - 52) = of_int \<bar>m\<bar> * 2 powi (k - (e - 52))"
      unfolding ax by (simp add: power_int_diff)
    also have "2 powi (k - (e - 52)) = (2::rat) ^ nat (k - (e - 52))"
      using j by (simp add: power_int_def)
    finally show ?thesis by simp
  qed
  have "rd x = sgn x * of_int (round_half_even (\<bar>x\<bar> / 2 powi (e - 52))) * 2 powi (e - 52)"
    using False by (simp add: rd_def Let_def e_def)
  also have "\<dots> = sgn x * (\<bar>x\<bar> / 2 powi (e - 52)) * 2 powi (e - 52)"
    unfolding q by (simp only: round_half_even_int)
  also have "\<dots> = sgn x * \<bar>x\<bar>" by simp
  also have "\<dots> = x" by (simp add: sgn_mult_abs)
  finally show ?thesis .
qed

lemma rd_int: "\<bar>m\<bar> < 2 ^ 53 \<Longrightarrow> rd (of_int m) = of_int m"
  using rd_exact[of "of_int m" m 0] by simp

lemma round_half_even_up:
  "of_int n + 1 / 2 < y \<Longrightarrow> y < of_int n + 1 \<Longrightarrow> round_half_even y = n + 1"
proof -
  assume a: "of_int n + 1 / 2 < y" "y < of_int n + 1"
  then have "\<lfloor>y\<rfloor> = n" by (simp add: floor_eq_iff)
  with a show ?thesis by (simp add: round_half_even_def Let_def)
qed

lemma round_half_even_down:
  "of_int n \<le> y \<Longrightarrow> y < of_int n + 1 / 2 \<Longrightarrow> round_half_even y = n"
proof -
  assume a: "of_int n \<le> y" "y < of_int n + 1 / 2"
  then have "\<lfloor>y\<rfloor> = n" by (simp add: floor_eq_iff)
  with a show ?thesis by (simp add: round_half_even_def Let_def)
qed

lemma powi_neg_numeral: "(2::rat) powi (- int n) = 1 / 2 ^ n"
  by (simp add: power_int_def power_one_over)

lemma rd_10: "rd 10 = 10"
  using rd_int[of 10] by simp

lemma rd_50: "rd 50 = 50"
  using rd_int[of 50] by simp

lemma double_of_6_2: "rd (62 / 10) = 6980579422424269 / 2 ^ 50"
proof -
  have r: "round_half_even (34902897112121344 / 5) = 6980579422424269"
    using round_half_even_up[of 6980579422424268 "34902897112121344 / 5"] by simp
  have p: "(2::rat) powi (2 - 52) = 1 / 2 ^ 50"
    using powi_neg_numeral[of 50] by simp
  have "rd (62 / 10) = sgn (62 / 10) * of_int (round_half_even (\<bar>62 / 10\<bar> / 2 powi (2 - 52)))
          * 2 powi (2 - 52)"
    by (rule rd_eq) simp_all
  then show ?thesis unfolding p by (simp add: r)
qed

lemma rd_half: "\<bar>m\<bar> < 2 ^ 53 \<Longrightarrow> rd (of_int m / 2) = of_int m / 2"
  using rd_exact[of "of_int m / 2" m "- 1"] by simp

lemma float_6_2_value: "float_6_2 = 6980579422424269 / 2 ^ 50"
  unfolding float_6_2_def by (rule double_of_6_2)

lemma rd_float_6_2: "rd float_6_2 = float_6_2"
proof -
  have "(6980579422424269 / 2 ^ 50 :: rat) = of_int 6980579422424269 * 2 powi (- 50)"
    using powi_neg_numeral[of 50] by simp
  from rd_exact[OF this] show ?thesis by (simp add: float_6_2_value)
qed

lemma rd_10_minus_float_6_2: "rd (10 - float_6_2) = 4278419646001971 / 2 ^ 50"
proof -
  have "(10 - 6980579422424269 / 2 ^ 50 :: rat) = of_int 4278419646001971 * 2 powi (- 50)"
    using powi_neg_numeral[of 50] by simp
  from rd_exact[OF this] show ?thesis by (simp add: float_6_2_value)
qed

lemma rd_times_5: "rd (4278419646001971 / 2 ^ 50 * 5) = 19"
proof -
  have r: "round_half_even (21392098230009855 / 4) = 5348024557502464"
    using round_half_even_up[of 5348024557502463 "21392098230009855 / 4"] by simp
  have p: "(2::rat) powi (4 - 52) = 1 / 2 ^ 48"
    using powi_neg_numeral[of 48] by simp
  have "rd (4278419646001971 / 2 ^ 50 * 5) =
          sgn (4278419646001971 / 2 ^ 50 * 5 :: rat)
          * of_int (round_half_even (\<bar>4278419646001971 / 2 ^ 50 * 5\<bar> / 2 powi (4 - 52)))
          * 2 powi (4 - 52)"
    by (rule rd_eq) simp_all
  then show ?thesis unfolding p by (simp add: r)
qed

section \<open>Final statistics\<close>

lemma calculate_final_stats_Returned:
  assumes "calculate_final_stats fsum qs sid now = (Returned st, qs')"
  shows "\<exists>s. active_sessions qs sid = Some s \<and> st = stats_of fsum s now \<and> accepts_writes (db qs) \<and>
           qs' = qs\<lparr>active_sessions := (active_sessions qs)(sid := None),
                    db := (db qs)\<lparr>active_quizzes := (active_quizzes (db qs))(sid := None)\<rparr>\<rparr>"
  using assms
  by (auto simp: calculate_final_stats_def cleanup_session_def Let_def split: option.splits if_splits)

lemma example_final_stats:
  "calculate_final_stats fsum (example_engine rts) ''tok'' 9 =
     (Returned (stats_of fsum (example_session rts) 9),
      snd (calculate_final_stats fsum (example_engine rts) ''tok'' 9))"
  by (simp add: calculate_final_stats_def cleanup_session_def example_engine_def example_db_def)

lemma example_live: "active_sessions (example_engine rts) ''tok'' = Some (example_session rts)"
  by (simp add: example_engine_def)

lemma rounded_product_nonneg: "avg < 10 \<Longrightarrow> 0 \<le> rd (rd (10 - avg) * 5)"
  by (intro rd_nonneg mult_nonneg_nonneg) simp_all

lemma time_bonus_stats_of:
  "time_bonus (stats_of fsum s now) =
     (if mean_response_time fsum s \<ge> 10 then 0
      else min 50 \<lfloor>rd (rd (10 - mean_response_time fsum s) * 5)\<rfloor>)"
  using rounded_product_nonneg[of "mean_response_time fsum s"]
  by (simp add: stats_of_def Let_def py_trunc_def)

lemma final_score_stats_of:
  "final_score (stats_of fsum s now) = score s + time_bonus (stats_of fsum s now)"
  by (simp add: stats_of_def Let_def)

lemma mean_single: "rd a = a \<Longrightarrow> mean_response_time sum_in_order (example_session [a]) = a"
  by (simp add: mean_response_time_def sum_in_order_def example_session_def)

text \<open>
  C5, as the specification words it, does not hold of the program. The mean response
  time and the bonus are floats: \<^verbatim>\<open>(10 - avg_response_time) * 5\<close> rounds after the
  subtraction and after the multiplication, and \<^verbatim>\<open>int\<close> truncates the rounded product.
  For a session whose one response time is the float \<^verbatim>\<open>6.2\<close> the mean is that float, a
  little below 6.2, so \<open>(10 - mean) * 5\<close> is a little below 19 and its floor is 18, while
  the rounded product is the float 19 and the program awards 19.
\<close>

theorem time_bonus_differs_from_floor:
  "fst (calculate_final_stats sum_in_order (example_engine [float_6_2]) ''tok'' 9) =
     Returned (stats_of sum_in_order (example_session [float_6_2]) 9)
   \<and> mean_response_time sum_in_order (example_session [float_6_2]) = float_6_2
   \<and> float_6_2 < 10
   \<and> time_bonus (stats_of sum_in_order (example_session [float_6_2]) 9) = 19
   \<and> min 50 \<lfloor>(10 - mean_response_time sum_in_order (example_session [float_6_2])) * 5\<rfloor> = 18"
proof -
  have run: "fst (calculate_final_stats sum_in_order (example_engine [float_6_2]) ''tok'' 9) =
     Returned (stats_of sum_in_order (example_session [float_6_2]) 9)"
    using example_final_stats[of sum_in_order "[float_6_2]"] by (metis fst_conv)
  have m: "mean_response_time sum_in_order (example_session [float_6_2]) = float_6_2"
    by (rule mean_single) (rule rd_float_6_2)
  have lt: "float_6_2 < 10" by (simp add: float_6_2_value)
  have tb: "time_bonus (stats_of sum_in_order (example_session [float_6_2]) 9) = 19"
    unfolding time_bonus_stats_of m rd_10_minus_float_6_2 rd_times_5 using lt by simp
  have fl: "min 50 \<lfloor>(10 - float_6_2) * 5\<rfloor> = (18::int)"
  proof -
    have "\<lfloor>(10 - float_6_2) * 5\<rfloor> = 18"
      unfolding float_6_2_value by (simp add: floor_eq_iff)
    then show ?thesis by simp
  qed
  show ?thesis using run m lt tb fl by simp
qed

text \<open>
  C5, amended. When the final statistics of a session are computed, the time bonus is 0
  for a mean response time of 10 seconds or more and otherwise the smaller of 50 and the
  integer part of the float product \<^verbatim>\<open>(10 - mean) * 5\<close>, that is of
  \<open>rd (rd (10 - mean) * 5)\<close>; where the subtraction and the multiplication are exact, this
  is \<open>\<lfloor>(10 - mean) * 5\<rfloor>\<close>. The bonus is never negative and never above 50; a mean
  of 0 gives 50, means of 10 and of 12 give 0; the final score is the score plus the
  bonus.
\<close>

theorem time_bonus_rule:
  assumes "calculate_final_stats fsum qs sid now = (Returned st, qs')"
    and "active_sessions qs sid = Some s"
  shows "time_bonus st =
           (if mean_response_time fsum s \<ge> 10 then 0
            else min 50 \<lfloor>rd (rd (10 - mean_response_time fsum s) * 5)\<rfloor>)
       \<and> (rd (10 - mean_response_time fsum s) = 10 - mean_response_time fsum s \<and>
          rd ((10 - mean_response_time fsum s) * 5) = (10 - mean_response_time fsum s) * 5 \<longrightarrow>
          time_bonus st =
            (if mean_response_time fsum s \<ge> 10 then 0
             else min 50 \<lfloor>(10 - mean_response_time fsum s) * 5\<rfloor>))
       \<and> 0 \<le> time_bonus st \<and> time_bonus st \<le> 50
       \<and> final_score st = score s + time_bonus st
       \<and> (mean_response_time fsum s = 0 \<longrightarrow> time_bonus st = 50)
       \<and> (mean_response_time fsum s = 10 \<longrightarrow> time_bonus st = 0)
       \<and> (mean_response_time fsum s = 12 \<longrightarrow> time_bonus st = 0)"
proof -
  let ?m = "mean_response_time fsum s"
  from calculate_final_stats_Returned[OF assms(1)] assms(2)
  have st: "st = stats_of fsum s now" by auto
  have tb: "time_bonus st = (if ?m \<ge> 10 then 0 else min 50 \<lfloor>rd (rd (10 - ?m) * 5)\<rfloor>)"
    unfolding st by (rule time_bonus_stats_of)
  have ex: "time_bonus st = (if ?m \<ge> 10 then 0 else min 50 \<lfloor>(10 - ?m) * 5\<rfloor>)"
    if "rd (10 - ?m) = 10 - ?m" and "rd ((10 - ?m) * 5) = (10 - ?m) * 5"
    using tb that by simp
  have lo: "0 \<le> time_bonus st"
  proof (cases "?m \<ge> 10")
    case True
    then show ?thesis using tb by simp
  next
    case False
    then have "0 \<le> rd (rd (10 - ?m) * 5)" by (intro rounded_product_nonneg) simp
    then have "0 \<le> \<lfloor>rd (rd (10 - ?m) * 5)\<rfloor>" by simp
    then show ?thesis using tb False by simp
  qed
  have hi: "time_bonus st \<le> 50" using tb by simp
  have fs: "final_score st = score s + time_bonus st"
    unfolding st by (rule final_score_stats_of)
  have z: "time_bonus st = 50" if "?m = 0"
    using tb that by (simp add: rd_10 rd_50)
  have t: "time_bonus st = 0" if "?m = 10" using tb that by simp
  have w: "time_bonus st = 0" if "?m = 12" using tb that by simp
  show ?thesis
  proof (intro conjI impI)
    show "time_bonus st = (if ?m \<ge> 10 then 0 else min 50 \<lfloor>rd (rd (10 - ?m) * 5)\<rfloor>)"
      by (rule tb)
    show "time_bonus st = (if ?m \<ge> 10 then 0 else min 50 \<lfloor>(10 - ?m) * 5\<rfloor>)"
      if "rd (10 - ?m) = 10 - ?m \<and> rd ((10 - ?m) * 5) = (10 - ?m) * 5"
      using ex that by blast
    show "0 \<le> time_bonus st" by (rule lo)
    show "time_bonus st \<le> 50" by (rule hi)
    show "final_score st = score s + time_bonus st" by (rule fs)
    show "time_bonus st = 50" if "?m = 0" using z that .
    show "time_bonus st = 0" if "?m = 10" using t that .
    show "time_bonus st = 0" if "?m = 12" using w that .
  qed
qed

theorem time_bonus_rule_witness:
  "time_bonus (stats_of sum_in_order (example_session [0, 0]) 9) = 50
   \<and> final_score (stats_of sum_in_order (example_session [0, 0]) 9) = 51
   \<and> time_bonus (stats_of sum_in_order (example_session [10]) 9) = 0
   \<and> time_bonus (stats_of sum_in_order (example_session [11, 13]) 9) = 0
   \<and> time_bonus (stats_of sum_in_order (example_session [3, 4]) 9) = 32
   \<and> final_score (stats_of sum_in_order (example_session [3, 4]) 9) = 33
   \<and> time_bonus (stats_of sum_in_order (example_session [float_6_2]) 9) = 19"
proof -
  have m1: "mean_response_time sum_in_order (example_session [0, 0]) = 0"
    by (simp add: mean_response_time_def sum_in_order_def example_session_def rd_def)
  have m2: "mean_response_time sum_in_order (example_session [10]) = 10"
    by (rule mean_single) (rule rd_10)
  have m3: "mean_response_time sum_in_order (example_session [11, 13]) = 12"
    using rd_int[of 11] rd_int[of 24] rd_int[of 12]
    by (simp add: mean_response_time_def sum_in_order_def example_session_def)
  have m4: "mean_response_time sum_in_order (example_session [3, 4]) = 7 / 2"
    using rd_int[of 3] rd_int[of 7] rd_half[of 7]
    by (simp add: mean_response_time_def sum_in_order_def example_session_def)
  have m5: "mean_response_time sum_in_order (example_session [float_6_2]) = float_6_2"
    by (rule mean_single) (rule rd_float_6_2)
  have sc: "score (example_session rts) = 1" for rts
    by (simp add: example_session_def)
  have e1: "rd (10 - 7 / 2) = 10 - 7 / 2" using rd_half[of 13] by simp
  have e2: "rd ((10 - 7 / 2) * 5) = (10 - 7 / 2) * 5" using rd_half[of 65] by simp
  have fl: "\<lfloor>65 / 2 :: rat\<rfloor> = 32" by (simp add: floor_eq_iff)
  have lt: "float_6_2 < 10" by (simp add: float_6_2_value)
  have a: "time_bonus (stats_of sum_in_order (example_session [0, 0]) 9) = 50
        \<and> final_score (stats_of sum_in_order (example_session [0, 0]) 9) = 51"
    using time_bonus_rule[OF example_final_stats example_live, of sum_in_order "[0, 0]"]
    by (simp add: m1 sc)
  have b: "time_bonus (stats_of sum_in_order (example_session [10]) 9) = 0"
    using time_bonus_rule[OF example_final_stats example_live, of sum_in_order "[10]"]
    by (simp add: m2)
  have c: "time_bonus (stats_of sum_in_order (example_session [11, 13]) 9) = 0"
    using time_bonus_rule[OF example_final_stats example_live, of sum_in_order "[11, 13]"]
    by (simp add: m3)
  have d: "time_bonus (stats_of sum_in_order (example_session [3, 4]) 9) = 32
        \<and> final_score (stats_of sum_in_order (example_session [3, 4]) 9) = 33"
    using time_bonus_rule[OF example_final_stats example_live, of sum_in_order "[3, 4]"] e1 e2
    unfolding m4 by (simp add: sc fl)
  have e: "time_bonus (stats_of sum_in_order (example_session [float_6_2]) 9) = 19"
    using time_bonus_rule[OF example_final_stats example_live, of sum_in_order "[float_6_2]"] lt
    unfolding m5 rd_10_minus_float_6_2 rd_times_5 by simp
  show ?thesis using a b c d e by simp
qed

section \<open>The successful outcome of submit_answer\<close>

lemma record_quiz_attempt_cases:
  "record_quiz_attempt d uid cid qid ua c rt diff p = (res, d') \<Longrightarrow>
     (res = Raised StorageError \<and> d' = d \<and> \<not> accepts_writes d) \<or>
     (res = Returned () \<and> accepts_writes d \<and> accepts_writes d' \<and>
      active_quizzes d' = active_quizzes d \<and> questions d' = questions d)"
  by (auto simp: record_quiz_attempt_def split: if_splits)

lemma submit_answer_unknown:
  "active_sessions qs sid = None \<Longrightarrow>
     submit_answer fsum qs sid qid ua rt now = (Returned (SubmitError ''Invalid session''), qs)"
  by (simp add: submit_answer_def)

lemma submit_answer_no_question:
  "active_sessions qs sid = Some s \<Longrightarrow>
   find (\<lambda>q. question_id q = qid) (questions (db qs)) = None \<Longrightarrow>
     submit_answer fsum qs sid qid ua rt now = (Returned (SubmitError ''Question not found''), qs)"
  by (simp add: submit_answer_def)

lemma submit_answer_Response:
  assumes "submit_answer fsum qs sid qid ua rt now = (Returned (Response r), qs')"
  obtains s q points s' s'' d where
    "active_sessions qs sid = Some s"
    "find (\<lambda>q. question_id q = qid) (questions (db qs)) = Some q"
    "(if lower ua = lower (correct_option q) then map_of points_map (difficulty q) else Some 0)
       = Some points"
    "update_session_statistics s q (lower ua = lower (correct_option q)) points rt = (None, s')"
    "record_quiz_attempt (db qs) (user_id s') (chapter_id s') qid ua
       (lower ua = lower (correct_option q)) rt (difficulty q) points = (Returned (), d)"
    "(if difficulty_mode s' = ''mix'' then adjust_difficulty s' else Returned s') = Returned s''"
    "is_correct r = (lower ua = lower (correct_option q))"
    "points_earned r = points"
    "streak r = correct_streak s''"
    "current_score r = score s''"
    "question_number r = current_question s''"
    "current_question s'' < total_questions s'' \<Longrightarrow>
       quiz_complete r = None \<and> r_final_stats r = None \<and>
       qs' = \<lparr>db = d, active_sessions = (active_sessions qs)(sid \<mapsto> s'')\<rparr>"
    "current_question s'' \<ge> total_questions s'' \<Longrightarrow>
       quiz_complete r = Some True \<and> r_final_stats r = Some (stats_of fsum s'' now) \<and>
       qs' = \<lparr>db = d\<lparr>active_quizzes := (active_quizzes d)(sid := None)\<rparr>,
              active_sessions = (active_sessions qs)(sid := None)\<rparr>"
proof -
  from assms obtain s where s: "active_sessions qs sid = Some s"
    by (cases "active_sessions qs sid") (auto simp: submit_answer_def)
  from assms s obtain q where q: "find (\<lambda>q. question_id q = qid) (questions (db qs)) = Some q"
    by (cases "find (\<lambda>q. question_id q = qid) (questions (db qs))") (auto simp: submit_answer_def)
  let ?c = "lower ua = lower (correct_option q)"
  from assms s q obtain points where
    p: "(if ?c then map_of points_map (difficulty q) else Some 0) = Some points"
    by (cases "(if ?c then map_of points_map (difficulty q) else Some 0)")
       (auto simp: submit_answer_def Let_def)
  obtain exn s' where u: "update_session_statistics s q ?c points rt = (exn, s')"
    by (cases "update_session_statistics s q ?c points rt")
  from assms s q p u have exn: "exn = None"
    by (cases exn) (auto simp: submit_answer_def Let_def)
  obtain res d where rec: "record_quiz_attempt (db qs) (user_id s') (chapter_id s') qid ua ?c rt
       (difficulty q) points = (res, d)"
    by (cases "record_quiz_attempt (db qs) (user_id s') (chapter_id s') qid ua ?c rt
       (difficulty q) points")
  from assms s q p u exn rec have res: "res = Returned ()"
    by (cases res) (auto simp: submit_answer_def Let_def)
  from record_quiz_attempt_cases[OF rec] res have w: "accepts_writes d" by auto
  from assms s q p u exn rec res obtain s'' where
    a: "(if difficulty_mode s' = ''mix'' then adjust_difficulty s' else Returned s') = Returned s''"
    by (cases "(if difficulty_mode s' = ''mix'' then adjust_difficulty s' else Returned s')")
       (auto simp: submit_answer_def Let_def)
  have eq: "submit_answer fsum qs sid qid ua rt now =
    (let qs3 = \<lparr>db = d, active_sessions = (active_sessions qs)(sid \<mapsto> s'')\<rparr>;
         resp = \<lparr>is_correct = ?c, correct_answer = correct_option q,
                 r_explanation = explanation q, points_earned = points,
                 current_score = score s'', question_number = current_question s'',
                 r_total_questions = total_questions s'', streak = correct_streak s'',
                 quiz_complete = None, r_final_stats = None\<rparr> in
     if current_question s'' \<ge> total_questions s'' then
       (Returned (Response (resp\<lparr>quiz_complete := Some True,
                                  r_final_stats := Some (stats_of fsum s'' now)\<rparr>)),
        \<lparr>db = d\<lparr>active_quizzes := (active_quizzes d)(sid := None)\<rparr>,
         active_sessions = (active_sessions qs)(sid := None)\<rparr>)
     else (Returned (Response resp), qs3))"
    using s q p u exn rec res a w
    by (simp add: submit_answer_def Let_def calculate_final_stats_def cleanup_session_def)
  show ?thesis
    using assms that[OF s q p u[unfolded exn] rec[unfolded res] a] unfolding eq Let_def
    by (auto split: if_splits)
qed

section \<open>What every live session satisfies\<close>

lemma keys123:
  assumes "map fst d = [1, 2, 3 :: int]"
  obtains a b c :: int where "d = [(1, a), (2, b), (3, c)]"
proof -
  from assms obtain x y z where d: "d = [x, y, z]"
    by (auto simp: map_eq_Cons_conv)
  with assms have "fst x = 1" "fst y = 2" "fst z = 3" by auto
  then have "x = (1, snd x)" "y = (2, snd y)" "z = (3, snd z)"
    by (auto simp: prod_eq_iff)
  with d have "d = [(1, snd x), (2, snd y), (3, snd z)]" by simp
  then show ?thesis by (rule that)
qed

lemma dict_incr_123:
  "dict_incr [(1, a), (2, b), (3, c)] k =
     (if k = 1 then Some [(1, a + 1), (2, b), (3, c)]
      else if k = 2 then Some [(1, a), (2, b + 1), (3, c)]
      else if k = 3 then Some [(1, a), (2, b), (3, c + 1)]
      else None)"
  by (simp add: dict_incr_def)

lemma session_inv_update:
  assumes "session_inv s"
  shows "session_inv (snd (update_session_statistics s q c p rt))"
proof -
  from assms obtain a1 a2 a3 where qb: "questions_by_difficulty s = [(1, a1), (2, a2), (3, a3)]"
    by (auto simp: session_inv_def elim: keys123)
  from assms obtain b1 b2 b3 where cb: "correct_by_difficulty s = [(1, b1), (2, b2), (3, b3)]"
    by (auto simp: session_inv_def elim: keys123)
  show ?thesis
    using assms
    by (auto simp: session_inv_def update_session_statistics_def Let_def qb cb dict_incr_123)
qed

lemma session_inv_adjust:
  assumes "session_inv s" and "adjust_difficulty s = Returned t"
  shows "session_inv t"
  using assms
  by (auto simp: session_inv_def adjust_difficulty_def Let_def
           split: if_splits option.splits)

lemma all_sessions_cleanup:
  "all_sessions P qs \<Longrightarrow> all_sessions P (snd (cleanup_session qs sid))"
  by (auto simp: all_sessions_def cleanup_session_def Let_def split: if_splits)

lemma all_sessions_final_stats:
  "all_sessions P qs \<Longrightarrow> all_sessions P (snd (calculate_final_stats fsum qs sid now))"
  using all_sessions_cleanup[of P qs sid]
  by (auto simp: calculate_final_stats_def split: option.splits prod.splits result.splits)

lemma all_sessions_upd:
  "all_sessions P qs \<Longrightarrow> P s \<Longrightarrow>
     all_sessions P (qs\<lparr>active_sessions := (active_sessions qs)(sid \<mapsto> s)\<rparr>)"
  by (auto simp: all_sessions_def)

lemma all_sessions_db: "all_sessions P (qs\<lparr>db := d\<rparr>) = all_sessions P qs"
  by (simp add: all_sessions_def)

lemma all_sessions_submit:
  assumes "all_sessions session_inv qs"
  shows "all_sessions session_inv (snd (submit_answer fsum qs sid qid ua rt now))"
proof (cases "active_sessions qs sid")
  case None
  then show ?thesis using assms by (simp add: submit_answer_unknown)
next
  case (Some s)
  then have inv: "session_inv s" using assms by (auto simp: all_sessions_def)
  show ?thesis
  proof (cases "find (\<lambda>q. question_id q = qid) (questions (db qs))")
    case None
    then show ?thesis using assms Some by (simp add: submit_answer_no_question)
  next
    case q: (Some q)
    let ?c = "lower ua = lower (correct_option q)"
    show ?thesis
    proof (cases "if ?c then map_of points_map (difficulty q) else Some 0")
      case None
      then show ?thesis using assms Some q by (simp add: submit_answer_def Let_def)
    next
      case p: (Some p)
      obtain exn s' where u: "update_session_statistics s q ?c p rt = (exn, s')"
        by (cases "update_session_statistics s q ?c p rt")
      have inv': "session_inv s'" using session_inv_update[OF inv, of q ?c p rt] u by simp
      let ?qs1 = "qs\<lparr>active_sessions := (active_sessions qs)(sid \<mapsto> s')\<rparr>"
      have a1: "all_sessions session_inv ?qs1" by (rule all_sessions_upd[OF assms inv'])
      show ?thesis
      proof (cases exn)
        case (Some e)
        then show ?thesis using a1 \<open>active_sessions qs sid = Some s\<close> q p u
          by (simp add: submit_answer_def Let_def)
      next
        case None
        obtain res d where rec: "record_quiz_attempt (db qs) (user_id s') (chapter_id s') qid ua ?c rt
           (difficulty q) p = (res, d)"
          by (cases "record_quiz_attempt (db qs) (user_id s') (chapter_id s') qid ua ?c rt
           (difficulty q) p")
        show ?thesis
        proof (cases res)
          case (Raised e)
          then show ?thesis using a1 \<open>active_sessions qs sid = Some s\<close> q p u None rec
            by (simp add: submit_answer_def Let_def all_sessions_db)
        next
          case (Returned x)
          show ?thesis
          proof (cases "if difficulty_mode s' = ''mix'' then adjust_difficulty s' else Returned s'")
            case (Raised e)
            then show ?thesis using a1 \<open>active_sessions qs sid = Some s\<close> q p u None rec Returned
              by (simp add: submit_answer_def Let_def all_sessions_db)
          next
            case adj: (Returned s'')
            have inv'': "session_inv s''"
              using adj inv' session_inv_adjust[of s' s''] by (auto split: if_splits)
            let ?qs3 = "?qs1\<lparr>db := d, active_sessions := (active_sessions qs)(sid \<mapsto> s'')\<rparr>"
            have a3: "all_sessions session_inv ?qs3"
              using all_sessions_upd[OF assms inv'', of sid] by (simp add: all_sessions_def)
            have a4: "all_sessions session_inv (snd (calculate_final_stats fsum ?qs3 sid now))"
              by (rule all_sessions_final_stats[OF a3])
            show ?thesis
              using a3 a4 \<open>active_sessions qs sid = Some s\<close> q p u None rec Returned adj
              by (auto simp: submit_answer_def Let_def split: prod.splits result.splits)
          qed
        qed
      qed
    qed
  qed
qed

lemma all_sessions_start:
  assumes "all_sessions session_inv qs"
  shows "all_sessions session_inv (snd (start_quiz qs sid now uid cid mode n))"
  using assms
  by (auto simp: start_quiz_def all_sessions_def session_inv_def
           split: option.splits if_splits)

lemma active_sessions_next:
  "active_sessions (snd (get_next_question qs rnd1 rnd2 sid)) = active_sessions qs"
  by (simp add: get_next_question_def Let_def split: option.splits prod.splits)

lemma all_sessions_next:
  "all_sessions P qs \<Longrightarrow> all_sessions P (snd (get_next_question qs rnd1 rnd2 sid))"
  by (simp add: all_sessions_def active_sessions_next)

lemma all_sessions_end:
  "all_sessions P qs \<Longrightarrow> all_sessions P (snd (end_quiz fsum qs sid now))"
  using all_sessions_final_stats[of P qs fsum sid now]
  by (auto simp: end_quiz_def split: option.splits prod.splits result.splits)

lemma reachable_inv: "reachable qs \<Longrightarrow> all_sessions session_inv qs"
proof (induction rule: reachable.induct)
  case (r_init d)
  show ?case by (simp add: all_sessions_def)
next
  case (r_store qs d)
  then show ?case by (simp add: all_sessions_db)
next
  case (r_start qs sid now uid cid mode n)
  from r_start.IH show ?case by (rule all_sessions_start)
next
  case (r_next qs rnd1 rnd2 sid)
  from r_next.IH show ?case by (rule all_sessions_next)
next
  case (r_submit qs sid qid ans rt now)
  from r_submit.IH show ?case by (rule all_sessions_submit)
next
  case (r_end qs sid now)
  from r_end.IH show ?case by (rule all_sessions_end)
qed

lemma reachable_session_inv:
  "reachable qs \<Longrightarrow> active_sessions qs sid = Some s \<Longrightarrow> session_inv s"
  using reachable_inv[of qs] by (auto simp: all_sessions_def)

section \<open>The adapter against the specification\<close>

lemma update_keeps:
  "update_session_statistics s q c p rt = (e, s') \<Longrightarrow>
     current_difficulty s' = current_difficulty s \<and> difficulty_mode s' = difficulty_mode s \<and>
     total_questions s' = total_questions s \<and> current_question s' = current_question s + 1"
  by (auto simp: update_session_statistics_def Let_def split: option.splits if_splits)

lemma adjust_keeps:
  "adjust_difficulty s = Returned t \<Longrightarrow>
     questions_by_difficulty t = questions_by_difficulty s \<and>
     correct_by_difficulty t = correct_by_difficulty s \<and>
     difficulty_mode t = difficulty_mode s \<and> total_questions t = total_questions s \<and>
     current_question t = current_question s \<and> correct_streak t = correct_streak s \<and>
     wrong_streak t = wrong_streak s \<and> score t = score s \<and>
     response_times t = response_times s"
  by (auto simp: adjust_difficulty_def Let_def split: option.splits if_splits)

lemma adjust_difficulty_spec:
  assumes "session_inv s" and "difficulty_mode s = ''mix''"
  shows "adjust_difficulty s =
           Returned (s\<lparr>current_difficulty :=
              adapted_difficulty (current_difficulty s)
                (tally (correct_by_difficulty s) (current_difficulty s))
                (tally (questions_by_difficulty s) (current_difficulty s))\<rparr>)"
proof -
  from assms obtain a1 a2 a3 where qb: "questions_by_difficulty s = [(1, a1), (2, a2), (3, a3)]"
    by (auto simp: session_inv_def elim: keys123)
  from assms obtain b1 b2 b3 where cb: "correct_by_difficulty s = [(1, b1), (2, b2), (3, b3)]"
    by (auto simp: session_inv_def elim: keys123)
  from assms have nn: "0 \<le> a1" "0 \<le> a2" "0 \<le> a3" and le: "a1 + a2 + a3 \<le> current_question s"
    and cur: "current_difficulty s = 1 \<or> current_difficulty s = 2 \<or> current_difficulty s = 3"
    by (auto simp: session_inv_def qb)
  from cur show ?thesis
  proof (elim disjE)
    assume "current_difficulty s = 1"
    then show ?thesis using nn le
      by (simp add: adjust_difficulty_def adapted_difficulty_def tally_def Let_def qb cb
            DIFFICULTY_THRESHOLD_UP_def DIFFICULTY_THRESHOLD_DOWN_def)
  next
    assume "current_difficulty s = 2"
    then show ?thesis using nn le
      by (simp add: adjust_difficulty_def adapted_difficulty_def tally_def Let_def qb cb
            DIFFICULTY_THRESHOLD_UP_def DIFFICULTY_THRESHOLD_DOWN_def)
  next
    assume "current_difficulty s = 3"
    then show ?thesis using nn le
      by (simp add: adjust_difficulty_def adapted_difficulty_def tally_def Let_def qb cb
            DIFFICULTY_THRESHOLD_UP_def DIFFICULTY_THRESHOLD_DOWN_def)
  qed
qed

section \<open>Scoring an answer\<close>

lemma lower_B: "lower ''B'' = ''b''" "lower ''b'' = ''b''" "lower ''c'' = ''c''"
  by code_simp+

lemma update_None_iff:
  assumes "session_inv s"
  shows "fst (update_session_statistics s q c p rt) = None \<longleftrightarrow> difficulty q \<in> {1, 2, 3}"
proof -
  from assms obtain a1 a2 a3 where qb: "questions_by_difficulty s = [(1, a1), (2, a2), (3, a3)]"
    by (auto simp: session_inv_def elim: keys123)
  from assms obtain b1 b2 b3 where cb: "correct_by_difficulty s = [(1, b1), (2, b2), (3, b3)]"
    by (auto simp: session_inv_def elim: keys123)
  show ?thesis
    by (auto simp: update_session_statistics_def Let_def qb cb dict_incr_123)
qed

lemma points_map_lookup:
  "map_of points_map k = (if k = 1 then Some 1 else if k = 2 then Some 2 else if k = 3 then Some 3 else None)"
  by (simp add: points_map_def POINTS_EASY_def POINTS_MEDIUM_def POINTS_HARD_def)

lemma update_streaks:
  assumes "update_session_statistics s q c p rt = (None, t)"
  shows "(c \<longrightarrow> correct_streak t = correct_streak s + 1 \<and> wrong_streak t = 0 \<and>
                score t = score s + p) \<and>
         (\<not> c \<longrightarrow> correct_streak t = 0 \<and> wrong_streak t = wrong_streak s + 1 \<and>
                score t = score s) \<and>
         response_times t = response_times s @ [rt]"
  using assms
  by (auto simp: update_session_statistics_def Let_def split: option.splits if_splits)

text \<open>
  C4. An answer is correct exactly when it equals the question's correct option up to
  letter case (the two lower-cased texts are equal). A correct answer earns the point
  value of the question's difficulty (1, 2 or 3 points at level 1, 2 or 3), an incorrect
  one earns 0, and neither depends on the response time.
\<close>

theorem scoring_rule:
  assumes "submit_answer fsum qs sid qid ua rt now = (Returned (Response r), qs')"
    and "find (\<lambda>q. question_id q = qid) (questions (db qs)) = Some q"
  shows "is_correct r = (lower ua = lower (correct_option q))
       \<and> (is_correct r \<longrightarrow> difficulty q \<in> {1, 2, 3} \<and> points_earned r = difficulty q)
       \<and> (\<not> is_correct r \<longrightarrow> points_earned r = 0)
       \<and> (\<forall>rt' now' r' qs''.
             submit_answer fsum qs sid qid ua rt' now' = (Returned (Response r'), qs'') \<longrightarrow>
               is_correct r' = is_correct r \<and> points_earned r' = points_earned r)"
proof -
  have one: "is_correct x = (lower ua = lower (correct_option q))
       \<and> (is_correct x \<longrightarrow> difficulty q \<in> {1, 2, 3} \<and> points_earned x = difficulty q)
       \<and> (\<not> is_correct x \<longrightarrow> points_earned x = 0)"
    if "submit_answer fsum qs sid qid ua t n = (Returned (Response x), y)" for x y t n
    using that
  proof (rule submit_answer_Response)
    fix s q' points s' s'' d
    assume q': "find (\<lambda>q. question_id q = qid) (questions (db qs)) = Some q'"
      and p: "(if lower ua = lower (correct_option q') then map_of points_map (difficulty q')
               else Some 0) = Some points"
      and c: "is_correct x = (lower ua = lower (correct_option q'))"
      and pe: "points_earned x = points"
    from q' assms(2) have "q' = q" by simp
    with p c pe show ?thesis
      by (auto simp: points_map_lookup split: if_splits)
  qed
  from one[OF assms(1)] have a: "is_correct r = (lower ua = lower (correct_option q))"
    and b: "is_correct r \<longrightarrow> difficulty q \<in> {1, 2, 3} \<and> points_earned r = difficulty q"
    and c: "\<not> is_correct r \<longrightarrow> points_earned r = 0"
    by blast+
  have d: "is_correct r' = is_correct r \<and> points_earned r' = points_earned r"
    if "submit_answer fsum qs sid qid ua rt' now' = (Returned (Response r'), qs'')" for rt' now' r' qs''
    using one[OF that] a b c by auto
  show ?thesis using a b c d by blast
qed

lemma example_find: "find (\<lambda>q. question_id q = 1) (questions (db (example_engine rts))) = Some example_question"
  by (simp add: example_engine_def example_db_def example_question_def)

lemma example_submit:
  "fst (submit_answer fsum (example_engine [3]) ''tok'' 1 ''b'' 4 9) =
     Returned (Response \<lparr>is_correct = True, correct_answer = ''B'', r_explanation = None,
       points_earned = 1, current_score = 2, question_number = 2, r_total_questions = 3,
       streak = 2, quiz_complete = None, r_final_stats = None\<rparr>)"
  by (simp add: submit_answer_def example_engine_def example_db_def example_question_def
      example_session_def lower_B points_map_lookup update_session_statistics_def dict_incr_def
      record_quiz_attempt_def adjust_difficulty_def Let_def)

lemma example_submit_wrong:
  "fst (submit_answer fsum (example_engine [3]) ''tok'' 1 ''c'' 4 9) =
     Returned (Response \<lparr>is_correct = False, correct_answer = ''B'', r_explanation = None,
       points_earned = 0, current_score = 1, question_number = 2, r_total_questions = 3,
       streak = 0, quiz_complete = None, r_final_stats = None\<rparr>)"
  by (simp add: submit_answer_def example_engine_def example_db_def example_question_def
      example_session_def lower_B points_map_lookup update_session_statistics_def dict_incr_def
      record_quiz_attempt_def adjust_difficulty_def Let_def)

theorem scoring_rule_witness:
  "(\<exists>r. fst (submit_answer sum_in_order (example_engine [3]) ''tok'' 1 ''b'' 4 9) = Returned (Response r)
        \<and> is_correct r \<and> points_earned r = 1)
   \<and> (\<exists>r. fst (submit_answer sum_in_order (example_engine [3]) ''tok'' 1 ''c'' 4 9) = Returned (Response r)
        \<and> \<not> is_correct r \<and> points_earned r = 0)"
proof -
  have d: "difficulty example_question = 1" "correct_option example_question = ''B''"
    by (simp_all add: example_question_def)
  have ne: "lower ''c'' \<noteq> lower ''B''" by (simp add: lower_B)
  have a: "submit_answer sum_in_order (example_engine [3]) ''tok'' 1 ''b'' 4 9 =
     (Returned (Response \<lparr>is_correct = True, correct_answer = ''B'', r_explanation = None,
       points_earned = 1, current_score = 2, question_number = 2, r_total_questions = 3,
       streak = 2, quiz_complete = None, r_final_stats = None\<rparr>),
      snd (submit_answer sum_in_order (example_engine [3]) ''tok'' 1 ''b'' 4 9))"
    using example_submit by (simp add: prod_eq_iff)
  have b: "submit_answer sum_in_order (example_engine [3]) ''tok'' 1 ''c'' 4 9 =
     (Returned (Response \<lparr>is_correct = False, correct_answer = ''B'', r_explanation = None,
       points_earned = 0, current_score = 1, question_number = 2, r_total_questions = 3,
       streak = 0, quiz_complete = None, r_final_stats = None\<rparr>),
      snd (submit_answer sum_in_order (example_engine [3]) ''tok'' 1 ''c'' 4 9))"
    using example_submit_wrong by (simp add: prod_eq_iff)
  show ?thesis
    using scoring_rule[OF a example_find] scoring_rule[OF b example_find]
    by (simp add: example_submit example_submit_wrong d lower_B)
qed

section \<open>Failures of submit_answer\<close>

lemma submit_answer_recorder_fails:
  assumes "active_sessions qs sid = Some s"
    and "find (\<lambda>q. question_id q = qid) (questions (db qs)) = Some q"
    and "(if lower ua = lower (correct_option q) then map_of points_map (difficulty q) else Some 0)
           = Some points"
    and "update_session_statistics s q (lower ua = lower (correct_option q)) points rt = (None, s')"
    and "\<not> accepts_writes (db qs)"
  shows "submit_answer fsum qs sid qid ua rt now =
           (Raised StorageError, qs\<lparr>active_sessions := (active_sessions qs)(sid \<mapsto> s')\<rparr>)"
  using assms by (simp add: submit_answer_def Let_def record_quiz_attempt_def)

lemma submit_answer_StorageError:
  assumes "submit_answer fsum qs sid qid ua rt now = (Raised StorageError, qs')"
  obtains s q points s' where
    "active_sessions qs sid = Some s"
    "find (\<lambda>q. question_id q = qid) (questions (db qs)) = Some q"
    "(if lower ua = lower (correct_option q) then map_of points_map (difficulty q) else Some 0)
       = Some points"
    "update_session_statistics s q (lower ua = lower (correct_option q)) points rt = (None, s')"
    "\<not> accepts_writes (db qs)"
    "qs' = qs\<lparr>active_sessions := (active_sessions qs)(sid \<mapsto> s')\<rparr>"
proof -
  from assms obtain s where s: "active_sessions qs sid = Some s"
    by (cases "active_sessions qs sid") (auto simp: submit_answer_def)
  from assms s obtain q where q: "find (\<lambda>q. question_id q = qid) (questions (db qs)) = Some q"
    by (cases "find (\<lambda>q. question_id q = qid) (questions (db qs))") (auto simp: submit_answer_def)
  let ?c = "lower ua = lower (correct_option q)"
  from assms s q obtain points where
    p: "(if ?c then map_of points_map (difficulty q) else Some 0) = Some points"
    by (cases "(if ?c then map_of points_map (difficulty q) else Some 0)")
       (auto simp: submit_answer_def Let_def)
  obtain exn s' where u: "update_session_statistics s q ?c points rt = (exn, s')"
    by (cases "update_session_statistics s q ?c points rt")
  have exn_cases: "exn = None \<or> exn = Some KeyError"
    using u by (auto simp: update_session_statistics_def Let_def split: option.splits if_splits)
  from assms s q p u exn_cases have exn: "exn = None"
    by (auto simp: submit_answer_def Let_def)
  have w: "\<not> accepts_writes (db qs)"
  proof
    assume acc: "accepts_writes (db qs)"
    have ad: "adjust_difficulty s' \<noteq> Raised StorageError"
      by (auto simp: adjust_difficulty_def Let_def split: option.splits)
    from acc assms s q p u exn ad show False
      by (auto simp: submit_answer_def Let_def record_quiz_attempt_def calculate_final_stats_def
            cleanup_session_def split: if_splits result.splits)
  qed
  from submit_answer_recorder_fails[OF s q p u[unfolded exn] w, of fsum now] assms
  have "qs' = qs\<lparr>active_sessions := (active_sessions qs)(sid \<mapsto> s')\<rparr>" by simp
  with s q p u[unfolded exn] w show ?thesis by (rule that)
qed

lemma offline_submit:
  "submit_answer fsum offline_engine ''tok'' 1 ''b'' 4 9 =
     (Raised StorageError,
      offline_engine\<lparr>active_sessions := [''tok'' \<mapsto>
        (example_session [3, 4])\<lparr>current_question := 2, score := 2, correct_streak := 2,
           questions_by_difficulty := [(1, 2), (2, 0), (3, 0)],
           correct_by_difficulty := [(1, 2), (2, 0), (3, 0)]\<rparr>]\<rparr>)"
  by (simp add: submit_answer_def offline_engine_def example_db_def example_question_def
      example_session_def lower_B points_map_lookup update_session_statistics_def dict_incr_def
      record_quiz_attempt_def Let_def)

text \<open>
  C1, as stated, fails: with a store that rejects the write, \<^verbatim>\<open>submit_answer\<close> raises from
  the recorder and the session already counts the answer (2 answers instead of 1, score 2
  instead of 1, a streak of 2 instead of 1, one more response time).
\<close>

theorem recording_failure_changes_session:
  "fst (submit_answer sum_in_order offline_engine ''tok'' 1 ''b'' 4 9) = Raised StorageError
   \<and> map_option current_question (active_sessions offline_engine ''tok'') = Some 1
   \<and> map_option current_question
        (active_sessions (snd (submit_answer sum_in_order offline_engine ''tok'' 1 ''b'' 4 9)) ''tok'') = Some 2
   \<and> map_option score (active_sessions offline_engine ''tok'') = Some 1
   \<and> map_option score
        (active_sessions (snd (submit_answer sum_in_order offline_engine ''tok'' 1 ''b'' 4 9)) ''tok'') = Some 2
   \<and> map_option response_times
        (active_sessions (snd (submit_answer sum_in_order offline_engine ''tok'' 1 ''b'' 4 9)) ''tok'')
        = Some [3, 4]
   \<and> active_sessions (snd (submit_answer sum_in_order offline_engine ''tok'' 1 ''b'' 4 9))
        \<noteq> active_sessions offline_engine"
proof -
  have "active_sessions (snd (submit_answer sum_in_order offline_engine ''tok'' 1 ''b'' 4 9)) ''tok''
        \<noteq> active_sessions offline_engine ''tok''"
    by (simp add: offline_submit) (simp add: offline_engine_def example_session_def)
  then have "active_sessions (snd (submit_answer sum_in_order offline_engine ''tok'' 1 ''b'' 4 9))
        \<noteq> active_sessions offline_engine"
    by metis
  then show ?thesis
    by (simp add: offline_submit) (simp add: offline_engine_def example_session_def)
qed

lemma update_tallies:
  assumes "update_session_statistics s q c p rt = (None, t)"
  shows "dict_incr (questions_by_difficulty s) (difficulty q) = Some (questions_by_difficulty t)"
    and "c \<Longrightarrow> dict_incr (correct_by_difficulty s) (difficulty q) = Some (correct_by_difficulty t)"
    and "\<not> c \<Longrightarrow> correct_by_difficulty t = correct_by_difficulty s"
    and "user_id t = user_id s \<and> chapter_id t = chapter_id s \<and> started_at t = started_at s"
  using assms
  by (auto simp: update_session_statistics_def Let_def split: option.splits if_splits)

lemma map_of_dict_incr:
  "map_of (map (\<lambda>(k', v). if k' = k then (k', v + 1) else (k', v)) d) j =
     map_option (\<lambda>v. if j = k then v + 1 else v) (map_of d j)"
  by (induction d) auto

lemma tally_dict_incr:
  assumes "dict_incr d k = Some d'"
  shows "tally d' j = tally d j + (if j = k then 1 else 0)"
proof -
  from assms obtain v where v: "map_of d k = Some v"
    and d': "d' = map (\<lambda>(k', v). if k' = k then (k', v + 1) else (k', v)) d"
    by (auto simp: dict_incr_def split: option.splits)
  show ?thesis
    unfolding tally_def d' map_of_dict_incr using v by (cases "map_of d j") auto
qed

text \<open>
  C1, amended. When the recorder fails during \<^verbatim>\<open>submit_answer\<close>, the failure reaches the
  caller, nothing is recorded and no other session changes, but the session's own
  updates have already been applied: one more answer, the count of the question's
  difficulty one higher (and no other count changed), the response time appended, and
  on a correct answer the points added, the correct streak one longer, the wrong streak
  0 and the count of correct answers at the question's difficulty one higher, on an
  incorrect one the correct streak 0, the wrong streak one longer and the counts of
  correct answers as before. The difficulty, the mode, the target, the user, the chapter
  and the start time are as before, and the session stays live.
\<close>

theorem recording_failure_keeps_updates:
  assumes "submit_answer fsum qs sid qid ua rt now = (Raised StorageError, qs')"
  shows "\<exists>s q t. active_sessions qs sid = Some s
         \<and> find (\<lambda>q. question_id q = qid) (questions (db qs)) = Some q
         \<and> db qs' = db qs
         \<and> active_sessions qs' = (active_sessions qs)(sid \<mapsto> t)
         \<and> current_question t = current_question s + 1
         \<and> dict_incr (questions_by_difficulty s) (difficulty q) = Some (questions_by_difficulty t)
         \<and> (\<forall>k. tally (questions_by_difficulty t) k =
                  tally (questions_by_difficulty s) k + (if k = difficulty q then 1 else 0))
         \<and> response_times t = response_times s @ [rt]
         \<and> (if lower ua = lower (correct_option q)
             then score t = score s + difficulty q \<and> correct_streak t = correct_streak s + 1
                  \<and> wrong_streak t = 0
                  \<and> dict_incr (correct_by_difficulty s) (difficulty q)
                      = Some (correct_by_difficulty t)
                  \<and> (\<forall>k. tally (correct_by_difficulty t) k =
                           tally (correct_by_difficulty s) k + (if k = difficulty q then 1 else 0))
             else score t = score s \<and> correct_streak t = 0
                  \<and> wrong_streak t = wrong_streak s + 1
                  \<and> correct_by_difficulty t = correct_by_difficulty s)
         \<and> current_difficulty t = current_difficulty s
         \<and> difficulty_mode t = difficulty_mode s
         \<and> total_questions t = total_questions s
         \<and> user_id t = user_id s \<and> chapter_id t = chapter_id s \<and> started_at t = started_at s"
  using assms
proof (rule submit_answer_StorageError)
  fix s q points s'
  assume s: "active_sessions qs sid = Some s"
    and q: "find (\<lambda>q. question_id q = qid) (questions (db qs)) = Some q"
    and p: "(if lower ua = lower (correct_option q) then map_of points_map (difficulty q)
             else Some 0) = Some points"
    and u: "update_session_statistics s q (lower ua = lower (correct_option q)) points rt
             = (None, s')"
    and qs': "qs' = qs\<lparr>active_sessions := (active_sessions qs)(sid \<mapsto> s')\<rparr>"
  from p have pts: "lower ua = lower (correct_option q) \<Longrightarrow> points = difficulty q"
    by (auto simp: points_map_lookup split: if_splits)
  note qb = update_tallies(1)[OF u]
  have tq: "\<forall>k. tally (questions_by_difficulty s') k =
                  tally (questions_by_difficulty s) k + (if k = difficulty q then 1 else 0)"
    using tally_dict_incr[OF qb] by blast
  have st: "active_sessions qs' = (active_sessions qs)(sid \<mapsto> s')" "db qs' = db qs"
    using qs' by simp_all
  show ?thesis
  proof (cases "lower ua = lower (correct_option q)")
    case True
    note cb = update_tallies(2)[OF u True]
    have tc: "\<forall>k. tally (correct_by_difficulty s') k =
                  tally (correct_by_difficulty s) k + (if k = difficulty q then 1 else 0)"
      using tally_dict_incr[OF cb] by blast
    show ?thesis
      apply (rule exI[of _ s], rule exI[of _ q], rule exI[of _ s'])
      apply (insert update_streaks[OF u] update_keeps[OF u] update_tallies(4)[OF u]
               pts[OF True] s q st qb tq cb tc True)
      apply simp
      done
  next
    case False
    note cb = update_tallies(3)[OF u False]
    show ?thesis
      apply (rule exI[of _ s], rule exI[of _ q], rule exI[of _ s'])
      apply (insert update_streaks[OF u] update_keeps[OF u] update_tallies(4)[OF u]
               s q st qb tq cb False)
      apply simp
      done
  qed
qed

theorem recording_failure_keeps_updates_witness:
  "\<exists>t. active_sessions (snd (submit_answer sum_in_order offline_engine ''tok'' 1 ''b'' 4 9)) ''tok'' = Some t
       \<and> current_question t = 2 \<and> score t = 2 \<and> correct_streak t = 2 \<and> wrong_streak t = 0
       \<and> response_times t = [3, 4] \<and> current_difficulty t = 1
       \<and> questions_by_difficulty t = [(1, 2), (2, 0), (3, 0)]
       \<and> correct_by_difficulty t = [(1, 2), (2, 0), (3, 0)]"
proof -
  have c: "lower ''b'' = lower (correct_option example_question)"
    by (simp add: example_question_def lower_B)
  have f: "find (\<lambda>q. question_id q = 1) (questions (db offline_engine)) = Some example_question"
    by (simp add: offline_engine_def example_db_def example_question_def)
  have l: "active_sessions offline_engine ''tok'' = Some (example_session [3])"
    by (simp add: offline_engine_def)
  from recording_failure_keeps_updates[OF offline_submit] obtain s q t where
    s: "active_sessions offline_engine ''tok'' = Some s"
    and q: "find (\<lambda>q. question_id q = 1) (questions (db offline_engine)) = Some q"
    and t: "active_sessions (snd (submit_answer sum_in_order offline_engine ''tok'' 1 ''b'' 4 9))
              = (active_sessions offline_engine)(''tok'' \<mapsto> t)"
    and n: "current_question t = current_question s + 1"
    and b: "dict_incr (questions_by_difficulty s) (difficulty q) = Some (questions_by_difficulty t)"
    and r: "response_times t = response_times s @ [4]"
    and k: "if lower ''b'' = lower (correct_option q)
             then score t = score s + difficulty q \<and> correct_streak t = correct_streak s + 1
                  \<and> wrong_streak t = 0
                  \<and> dict_incr (correct_by_difficulty s) (difficulty q)
                      = Some (correct_by_difficulty t)
                  \<and> (\<forall>k. tally (correct_by_difficulty t) k =
                           tally (correct_by_difficulty s) k + (if k = difficulty q then 1 else 0))
             else score t = score s \<and> correct_streak t = 0
                  \<and> wrong_streak t = wrong_streak s + 1
                  \<and> correct_by_difficulty t = correct_by_difficulty s"
    and d: "current_difficulty t = current_difficulty s"
    unfolding offline_submit snd_conv by blast
  from s l have s': "s = example_session [3]" by simp
  from q f have q': "q = example_question" by simp
  from t have "active_sessions (snd (submit_answer sum_in_order offline_engine ''tok'' 1 ''b'' 4 9)) ''tok''
                 = Some t" by simp
  moreover from n r k d c b have "current_question t = 2 \<and> score t = 2 \<and> correct_streak t = 2
       \<and> wrong_streak t = 0 \<and> response_times t = [3, 4] \<and> current_difficulty t = 1
       \<and> questions_by_difficulty t = [(1, 2), (2, 0), (3, 0)]
       \<and> correct_by_difficulty t = [(1, 2), (2, 0), (3, 0)]"
    unfolding s' q' by (simp add: example_session_def example_question_def dict_incr_def)
  ultimately show ?thesis by blast
qed

lemma submit_answer_cases:
  obtains
    (unknown) "active_sessions qs sid = None"
      "submit_answer fsum qs sid qid ua rt now = (Returned (SubmitError ''Invalid session''), qs)"
  | (no_question) s where "active_sessions qs sid = Some s"
      "find (\<lambda>q. question_id q = qid) (questions (db qs)) = None"
      "submit_answer fsum qs sid qid ua rt now = (Returned (SubmitError ''Question not found''), qs)"
  | (no_points) s q where "active_sessions qs sid = Some s"
      "find (\<lambda>q. question_id q = qid) (questions (db qs)) = Some q"
      "lower ua = lower (correct_option q)" "map_of points_map (difficulty q) = None"
      "submit_answer fsum qs sid qid ua rt now = (Raised KeyError, qs)"
  | (key_error) s q points e s' where "active_sessions qs sid = Some s"
      "find (\<lambda>q. question_id q = qid) (questions (db qs)) = Some q"
      "update_session_statistics s q (lower ua = lower (correct_option q)) points rt = (Some e, s')"
      "submit_answer fsum qs sid qid ua rt now =
         (Raised e, qs\<lparr>active_sessions := (active_sessions qs)(sid \<mapsto> s')\<rparr>)"
  | (recorder) s q points s' where "active_sessions qs sid = Some s"
      "find (\<lambda>q. question_id q = qid) (questions (db qs)) = Some q"
      "update_session_statistics s q (lower ua = lower (correct_option q)) points rt = (None, s')"
      "\<not> accepts_writes (db qs)"
      "submit_answer fsum qs sid qid ua rt now =
         (Raised StorageError, qs\<lparr>active_sessions := (active_sessions qs)(sid \<mapsto> s')\<rparr>)"
  | (adapter) s q points s' e d where "active_sessions qs sid = Some s"
      "find (\<lambda>q. question_id q = qid) (questions (db qs)) = Some q"
      "update_session_statistics s q (lower ua = lower (correct_option q)) points rt = (None, s')"
      "accepts_writes (db qs)" "difficulty_mode s' = ''mix''" "adjust_difficulty s' = Raised e"
      "submit_answer fsum qs sid qid ua rt now =
         (Raised e, \<lparr>db = d, active_sessions = (active_sessions qs)(sid \<mapsto> s')\<rparr>)"
  | (answered) s q r qs' where "active_sessions qs sid = Some s"
      "find (\<lambda>q. question_id q = qid) (questions (db qs)) = Some q"
      "accepts_writes (db qs)"
      "submit_answer fsum qs sid qid ua rt now = (Returned (Response r), qs')"
proof (cases "active_sessions qs sid")
  case None
  then show ?thesis by (rule unknown) (simp add: None submit_answer_unknown)
next
  case (Some s)
  note s = Some
  show ?thesis
  proof (cases "find (\<lambda>q. question_id q = qid) (questions (db qs))")
    case None
    with s show ?thesis by (intro no_question) (simp_all add: submit_answer_no_question)
  next
    case (Some q)
    note q = Some
    let ?c = "lower ua = lower (correct_option q)"
    show ?thesis
    proof (cases "if ?c then map_of points_map (difficulty q) else Some 0")
      case None
      then have c: "?c" and m: "map_of points_map (difficulty q) = None"
        by (auto split: if_splits)
      have "submit_answer fsum qs sid qid ua rt now = (Raised KeyError, qs)"
        using s q None by (simp add: submit_answer_def Let_def)
      with s q c m show ?thesis by (rule no_points)
    next
      case (Some points)
      note p = Some
      obtain exn s' where u: "update_session_statistics s q ?c points rt = (exn, s')"
        by (cases "update_session_statistics s q ?c points rt")
      show ?thesis
      proof (cases exn)
        case (Some e)
        have "submit_answer fsum qs sid qid ua rt now =
           (Raised e, qs\<lparr>active_sessions := (active_sessions qs)(sid \<mapsto> s')\<rparr>)"
          using s q p u Some by (simp add: submit_answer_def Let_def)
        with s q u[unfolded Some] show ?thesis by (rule key_error)
      next
        case None
        note u' = u[unfolded None]
        show ?thesis
        proof (cases "accepts_writes (db qs)")
          case False
          from submit_answer_recorder_fails[OF s q p u' False] s q u' False
          show ?thesis by (intro recorder)
        next
          case True
          obtain d where rec: "record_quiz_attempt (db qs) (user_id s') (chapter_id s') qid ua ?c rt
               (difficulty q) points = (Returned (), d)" and wd: "accepts_writes d"
            using True by (simp add: record_quiz_attempt_def)
          show ?thesis
          proof (cases "if difficulty_mode s' = ''mix'' then adjust_difficulty s' else Returned s'")
            case (Raised e)
            then have mx: "difficulty_mode s' = ''mix''" and ad: "adjust_difficulty s' = Raised e"
              by (auto split: if_splits)
            have "submit_answer fsum qs sid qid ua rt now =
               (Raised e, \<lparr>db = d, active_sessions = (active_sessions qs)(sid \<mapsto> s')\<rparr>)"
              using s q p u' rec Raised by (simp add: submit_answer_def Let_def)
            with s q u' True mx ad show ?thesis by (rule adapter)
          next
            case (Returned s'')
            have "\<exists>r qs'. submit_answer fsum qs sid qid ua rt now = (Returned (Response r), qs')"
              using s q p u' rec Returned wd
              by (simp add: submit_answer_def Let_def calculate_final_stats_def cleanup_session_def)
            then obtain r qs' where
              "submit_answer fsum qs sid qid ua rt now = (Returned (Response r), qs')" by blast
            with s q True show ?thesis by (rule answered)
          qed
        qed
      qed
    qed
  qed
qed

lemma submit_answer_SubmitError:
  assumes "submit_answer fsum qs sid qid ua rt now = (Returned (SubmitError msg), qs')"
  shows "qs' = qs \<and>
         ((active_sessions qs sid = None \<and> msg = ''Invalid session'') \<or>
          (active_sessions qs sid \<noteq> None \<and>
           find (\<lambda>q. question_id q = qid) (questions (db qs)) = None \<and>
           msg = ''Question not found''))"
  using assms by (cases rule: submit_answer_cases[of qs sid fsum qid ua rt now]) auto

text \<open>
  C10. A call of \<^verbatim>\<open>submit_answer\<close> with an unknown token returns the error
  "Invalid session", one with a live token and a question id that the store does not hold
  returns "Question not found"; whenever it returns such an error the whole engine state
  is the state before the call: every session entry, and the store with its attempts.
\<close>

theorem submit_error_leaves_state:
  "(active_sessions qs sid = None \<longrightarrow>
      submit_answer fsum qs sid qid ua rt now = (Returned (SubmitError ''Invalid session''), qs))
   \<and> (active_sessions qs sid \<noteq> None
        \<and> find (\<lambda>q. question_id q = qid) (questions (db qs)) = None \<longrightarrow>
      submit_answer fsum qs sid qid ua rt now = (Returned (SubmitError ''Question not found''), qs))
   \<and> (\<forall>msg qs'. submit_answer fsum qs sid qid ua rt now = (Returned (SubmitError msg), qs') \<longrightarrow>
        qs' = qs \<and> active_sessions qs' = active_sessions qs
        \<and> quiz_attempts (db qs') = quiz_attempts (db qs)
        \<and> (active_sessions qs sid = None
            \<or> find (\<lambda>q. question_id q = qid) (questions (db qs)) = None))"
proof (intro conjI impI allI)
  assume "active_sessions qs sid = None"
  then show "submit_answer fsum qs sid qid ua rt now = (Returned (SubmitError ''Invalid session''), qs)"
    by (rule submit_answer_unknown)
next
  assume a: "active_sessions qs sid \<noteq> None
        \<and> find (\<lambda>q. question_id q = qid) (questions (db qs)) = None"
  then obtain s where "active_sessions qs sid = Some s" by auto
  with a show "submit_answer fsum qs sid qid ua rt now
                 = (Returned (SubmitError ''Question not found''), qs)"
    by (simp add: submit_answer_no_question)
next
  fix msg qs'
  assume a: "submit_answer fsum qs sid qid ua rt now = (Returned (SubmitError msg), qs')"
  from submit_answer_SubmitError[OF a] show "qs' = qs" by simp
  from submit_answer_SubmitError[OF a] show "active_sessions qs' = active_sessions qs" by simp
  from submit_answer_SubmitError[OF a] show "quiz_attempts (db qs') = quiz_attempts (db qs)"
    by simp
  from submit_answer_SubmitError[OF a]
  show "active_sessions qs sid = None
            \<or> find (\<lambda>q. question_id q = qid) (questions (db qs)) = None"
    by auto
qed

theorem submit_error_leaves_state_witness:
  "submit_answer sum_in_order (example_engine [3]) ''ghost'' 1 ''b'' 4 9
     = (Returned (SubmitError ''Invalid session''), example_engine [3])
   \<and> submit_answer sum_in_order (example_engine [3]) ''tok'' 2 ''b'' 4 9
     = (Returned (SubmitError ''Question not found''), example_engine [3])"
proof -
  have a: "active_sessions (example_engine [3]) ''ghost'' = None"
    by (simp add: example_engine_def)
  have b: "active_sessions (example_engine [3]) ''tok'' \<noteq> None
        \<and> find (\<lambda>q. question_id q = 2) (questions (db (example_engine [3]))) = None"
    by (simp add: example_engine_def example_db_def example_question_def)
  show ?thesis
    using submit_error_leaves_state[of "example_engine [3]" "''ghost''" sum_in_order 1 "''b''" 4 9]
      submit_error_leaves_state[of "example_engine [3]" "''tok''" sum_in_order 2 "''b''" 4 9] a b
    by blast
qed

section \<open>A run of the engine\<close>

lemma run_start:
  "start_quiz fresh_engine ''tok'' 0 5 7 ''mix'' n = (Returned ''tok'', quiz_state n 0 1 [] [])"
  by (simp add: start_quiz_def fresh_engine_def quiz_state_def quiz_db_def quiz_session_def
        example_db_def)

lemma run_answer:
  assumes "k + 1 < n" and "0 \<le> k" and "k + 1 < 3"
  shows "submit_answer fsum (quiz_state n k 1 rts atts) ''tok'' 1 ''b'' 4 9 =
     (Returned (Response \<lparr>is_correct = True, correct_answer = ''B'', r_explanation = None,
         points_earned = 1, current_score = k + 1, question_number = k + 1,
         r_total_questions = n, streak = k + 1, quiz_complete = None, r_final_stats = None\<rparr>),
      quiz_state n (k + 1) 1 (rts @ [4]) (atts @ [example_attempt]))"
  using assms
  by (simp add: submit_answer_def quiz_state_def quiz_db_def quiz_session_def example_db_def
      example_question_def example_attempt_def lower_B points_map_lookup
      update_session_statistics_def dict_incr_def record_quiz_attempt_def adjust_difficulty_def
      Let_def)

lemma run_promote:
  assumes "3 < n"
  shows "submit_answer fsum (quiz_state n 2 1 rts atts) ''tok'' 1 ''b'' 4 9 =
     (Returned (Response \<lparr>is_correct = True, correct_answer = ''B'', r_explanation = None,
         points_earned = 1, current_score = 3, question_number = 3,
         r_total_questions = n, streak = 3, quiz_complete = None, r_final_stats = None\<rparr>),
      quiz_state n 3 2 (rts @ [4]) (atts @ [example_attempt]))"
  using assms
  by (simp add: submit_answer_def quiz_state_def quiz_db_def quiz_session_def example_db_def
      example_question_def example_attempt_def lower_B points_map_lookup
      update_session_statistics_def dict_incr_def record_quiz_attempt_def adjust_difficulty_def
      DIFFICULTY_THRESHOLD_UP_def DIFFICULTY_THRESHOLD_DOWN_def Let_def)

lemma reachable_run0: "reachable (quiz_state n 0 1 [] [])"
  using r_start[OF r_init, of example_db "''tok''" 0 5 7 "''mix''" n]
  by (simp add: run_start[unfolded fresh_engine_def])

lemma reachable_run1: "1 < n \<Longrightarrow> reachable (quiz_state n 1 1 [4] [example_attempt])"
  using r_submit[OF reachable_run0, of sum_in_order n "''tok''" 1 "''b''" 4 9]
  by (simp add: run_answer[where k = 0 and n = n and rts = "[]" and atts = "[]" and fsum = sum_in_order, simplified])

lemma reachable_run2:
  "2 < n \<Longrightarrow> reachable (quiz_state n 2 1 [4, 4] [example_attempt, example_attempt])"
  using r_submit[OF reachable_run1, of n sum_in_order "''tok''" 1 "''b''" 4 9]
  by (simp add: run_answer[where k = 1 and n = n and rts = "[4]" and atts = "[example_attempt]" and fsum = sum_in_order, simplified])

section \<open>Streaks\<close>

text \<open>
  C6. In every reachable state each live session has at most one of the two streaks
  different from 0, and every answered question adds one to one streak and resets the
  other: a correct answer makes the correct streak one longer and the wrong streak 0, an
  incorrect answer makes the correct streak 0 and the wrong streak one longer. The
  session \<open>t\<close> is the session as scored; it is the stored one while the quiz goes on, and
  the reply reports its correct streak.
\<close>

theorem streak_rule:
  assumes "reachable qs" and "active_sessions qs sid = Some s"
  shows "(correct_streak s = 0 \<or> wrong_streak s = 0)
       \<and> (\<forall>qid ua rt now r qs'.
            submit_answer fsum qs sid qid ua rt now = (Returned (Response r), qs') \<longrightarrow>
            (\<exists>t. (if is_correct r
                  then correct_streak t = correct_streak s + 1 \<and> wrong_streak t = 0
                  else correct_streak t = 0 \<and> wrong_streak t = wrong_streak s + 1)
               \<and> (correct_streak t = 0 \<or> wrong_streak t = 0)
               \<and> streak r = correct_streak t
               \<and> (if quiz_complete r = None then active_sessions qs' sid = Some t
                   else active_sessions qs' sid = None)))"
proof (intro conjI allI impI)
  from reachable_session_inv[OF assms] show "correct_streak s = 0 \<or> wrong_streak s = 0"
    by (simp add: session_inv_def)
next
  fix qid ua rt now r qs'
  assume "submit_answer fsum qs sid qid ua rt now = (Returned (Response r), qs')"
  then show "\<exists>t. (if is_correct r
                  then correct_streak t = correct_streak s + 1 \<and> wrong_streak t = 0
                  else correct_streak t = 0 \<and> wrong_streak t = wrong_streak s + 1)
               \<and> (correct_streak t = 0 \<or> wrong_streak t = 0)
               \<and> streak r = correct_streak t
               \<and> (if quiz_complete r = None then active_sessions qs' sid = Some t
                   else active_sessions qs' sid = None)"
  proof (rule submit_answer_Response)
    fix s0 q points s' s'' d
    assume s0: "active_sessions qs sid = Some s0"
      and u: "update_session_statistics s0 q (lower ua = lower (correct_option q)) points rt
               = (None, s')"
      and a: "(if difficulty_mode s' = ''mix'' then adjust_difficulty s' else Returned s')
               = Returned s''"
      and c: "is_correct r = (lower ua = lower (correct_option q))"
      and st: "streak r = correct_streak s''"
      and live: "current_question s'' < total_questions s'' \<Longrightarrow>
         quiz_complete r = None \<and> r_final_stats r = None \<and>
         qs' = \<lparr>db = d, active_sessions = (active_sessions qs)(sid \<mapsto> s'')\<rparr>"
      and fin: "total_questions s'' \<le> current_question s'' \<Longrightarrow>
         quiz_complete r = Some True \<and> r_final_stats r = Some (stats_of fsum s'' now) \<and>
         qs' = \<lparr>db = d\<lparr>active_quizzes := (active_quizzes d)(sid := None)\<rparr>,
                active_sessions = (active_sessions qs)(sid := None)\<rparr>"
    from s0 assms(2) have [simp]: "s0 = s" by simp
    have k: "correct_streak s'' = correct_streak s' \<and> wrong_streak s'' = wrong_streak s'"
      using a adjust_keeps[of s' s''] by (auto split: if_splits)
    have 1: "if is_correct r
             then correct_streak s'' = correct_streak s + 1 \<and> wrong_streak s'' = 0
             else correct_streak s'' = 0 \<and> wrong_streak s'' = wrong_streak s + 1"
      using update_streaks[OF u] k c by auto
    then have 2: "correct_streak s'' = 0 \<or> wrong_streak s'' = 0"
      by (auto split: if_splits)
    have 3: "if quiz_complete r = None then active_sessions qs' sid = Some s''
             else active_sessions qs' sid = None"
    proof (cases "current_question s'' < total_questions s''")
      case True
      with live show ?thesis by simp
    next
      case False
      with fin show ?thesis by simp
    qed
    from 1 2 st 3 show ?thesis by blast
  qed
qed

theorem streak_rule_witness:
  "correct_streak (quiz_session 5 2 1 [4, 4]) = 2 \<and> wrong_streak (quiz_session 5 2 1 [4, 4]) = 0
   \<and> (\<exists>t. active_sessions (snd (submit_answer sum_in_order
              (quiz_state 5 2 1 [4, 4] [example_attempt, example_attempt]) ''tok'' 1 ''b'' 4 9))
            ''tok'' = Some t
          \<and> correct_streak t = 3 \<and> wrong_streak t = 0)"
proof -
  let ?qs = "quiz_state 5 2 1 [4, 4] [example_attempt, example_attempt]"
  have r: "reachable ?qs" by (rule reachable_run2) simp
  have l: "active_sessions ?qs ''tok'' = Some (quiz_session 5 2 1 [4, 4])"
    by (simp add: quiz_state_def)
  have p: "submit_answer sum_in_order ?qs ''tok'' 1 ''b'' 4 9 =
     (Returned (Response \<lparr>is_correct = True, correct_answer = ''B'', r_explanation = None,
         points_earned = 1, current_score = 3, question_number = 3,
         r_total_questions = 5, streak = 3, quiz_complete = None, r_final_stats = None\<rparr>),
      quiz_state 5 3 2 ([4, 4] @ [4]) ([example_attempt, example_attempt] @ [example_attempt]))"
    by (rule run_promote) simp
  from streak_rule[OF r l] p
  obtain t where "correct_streak t = correct_streak (quiz_session 5 2 1 [4, 4]) + 1"
    "wrong_streak t = 0"
    "active_sessions (quiz_state 5 3 2 ([4, 4] @ [4])
        ([example_attempt, example_attempt] @ [example_attempt])) ''tok'' = Some t"
    by fastforce
  then show ?thesis
    by (simp add: p) (simp add: quiz_session_def)
qed

section \<open>Adaptive difficulty\<close>







section \<open>Selecting the next question\<close>

lemma first_row_None:
  "(case sort_key f xs of [] \<Rightarrow> None | q # _ \<Rightarrow> Some q) = None \<longleftrightarrow> xs = []"
proof -
  have "sort_key f xs = [] \<longleftrightarrow> xs = []"
    using length_sort[of f xs] by (metis length_0_conv)
  then show ?thesis by (auto split: list.splits)
qed

lemma first_row_Some:
  "(case sort_key f xs of [] \<Rightarrow> None | q # _ \<Rightarrow> Some q) = Some q \<Longrightarrow> q \<in> set xs"
proof -
  assume "(case sort_key f xs of [] \<Rightarrow> None | q # _ \<Rightarrow> Some q) = Some q"
  then obtain rest where "sort_key f xs = q # rest" by (auto split: list.splits)
  then have "q \<in> set (sort_key f xs)" by simp
  then show ?thesis by simp
qed

lemma db_get_next_question_log:
  "select_log (snd (db_get_next_question d rnd uid cid diff)) = select_log d @ [(uid, cid, diff)]"
  "questions (snd (db_get_next_question d rnd uid cid diff)) = questions d"
  by (simp_all add: db_get_next_question_def Let_def)

lemma db_get_next_question_result:
  "fst (db_get_next_question d rnd uid cid diff) = None \<longleftrightarrow> candidates d cid diff = []"
  "fst (db_get_next_question d rnd uid cid diff) = Some q \<Longrightarrow> q \<in> set (candidates d cid diff)"
  by (auto simp: db_get_next_question_def Let_def first_row_None dest: first_row_Some)

lemma candidates_log [simp]:
  "candidates (snd (db_get_next_question d rnd uid cid diff)) c k = candidates d c k"
  by (simp add: candidates_def db_get_next_question_log)

lemma candidates_chapter:
  "candidates d cid None = filter (\<lambda>q. q_chapter_id q = cid) (questions d)"
  by (simp add: candidates_def)

lemma candidates_current:
  "candidates d cid (Some k) =
     filter (\<lambda>q. q_chapter_id q = cid \<and> (k \<noteq> 0 \<longrightarrow> difficulty q = k)) (questions d)"
  unfolding candidates_def by (rule filter_cong) auto

lemma next_question_at_target:
  "active_sessions qs sid = Some s \<Longrightarrow> total_questions s \<le> current_question s \<Longrightarrow>
     get_next_question qs rnd1 rnd2 sid = (None, qs)"
  by (simp add: get_next_question_def)

lemma next_question_barren:
  assumes "active_sessions qs sid = Some s"
    and "filter (\<lambda>q. q_chapter_id q = chapter_id s) (questions (db qs)) = []"
  shows "fst (get_next_question qs rnd1 rnd2 sid) = None"
proof (cases "total_questions s \<le> current_question s")
  case True
  with assms(1) show ?thesis by (simp add: next_question_at_target)
next
  case False
  let ?q1 = "db_get_next_question (db qs) rnd1 (user_id s) (chapter_id s)
               (Some (current_difficulty s))"
  have "set (candidates (db qs) (chapter_id s) (Some (current_difficulty s)))
          \<subseteq> set (filter (\<lambda>q. q_chapter_id q = chapter_id s) (questions (db qs)))"
    by (auto simp: candidates_def)
  with assms(2) have c1: "candidates (db qs) (chapter_id s) (Some (current_difficulty s)) = []"
    by simp
  have c2: "candidates (snd ?q1) (chapter_id s) None = []"
    using assms(2) by (simp add: candidates_chapter db_get_next_question_log)
  have n1: "fst ?q1 = None" using db_get_next_question_result(1) c1 by blast
  have n2: "fst (db_get_next_question (snd ?q1) rnd2 (user_id s) (chapter_id s) None) = None"
    using db_get_next_question_result(1) c2 by blast
  from assms(1) False n1 n2 show ?thesis
    by (simp add: get_next_question_def Let_def split_beta)
qed

lemma stalled_submit:
  "submit_answer fsum ((quiz_state 1 0 1 [] [])\<lparr>db := (quiz_db 1 [])\<lparr>accepts_writes := False\<rparr>\<rparr>)
     ''tok'' 1 ''b'' 4 9 = (Raised StorageError, stalled_engine)"
  by (simp add: submit_answer_def stalled_engine_def quiz_state_def quiz_db_def quiz_session_def
      example_db_def example_question_def lower_B points_map_lookup
      update_session_statistics_def dict_incr_def record_quiz_attempt_def Let_def)

lemma reachable_stalled: "reachable stalled_engine"
proof -
  have "reachable ((quiz_state 1 0 1 [] [])\<lparr>db := (quiz_db 1 [])\<lparr>accepts_writes := False\<rparr>\<rparr>)"
    by (rule r_store) (rule reachable_run0)
  from r_submit[OF this, where fsum = sum_in_order and sid = "''tok''" and qid = 1
      and ans = "''b''" and rt = 4 and now = 9]
  show ?thesis by (simp add: stalled_submit)
qed

text \<open>
  C7, as stated, fails for a live session that is at its target. Such a session arises
  when the store rejects the record of the answer that reaches the target: the answer
  is counted, \<^verbatim>\<open>submit_answer\<close> raises before the completion check and the session stays
  live. \<^verbatim>\<open>get_next_question\<close> then returns \<^verbatim>\<open>None\<close> without any query, although the
  chapter has a question at the session's difficulty.
\<close>

theorem next_question_none_at_target:
  "reachable stalled_engine
   \<and> (\<exists>s. active_sessions stalled_engine ''tok'' = Some s
          \<and> current_question s = 1 \<and> total_questions s = 1
          \<and> chapter_id s = 7 \<and> current_difficulty s = 1)
   \<and> filter (\<lambda>q. q_chapter_id q = 7 \<and> difficulty q = 1) (questions (db stalled_engine))
       = [example_question]
   \<and> select_log (db stalled_engine) = []
   \<and> fst (get_next_question stalled_engine (\<lambda>_. 0) (\<lambda>_. 0) ''tok'') = None
   \<and> select_log (db (snd (get_next_question stalled_engine (\<lambda>_. 0) (\<lambda>_. 0) ''tok''))) = []"
proof -
  have a: "\<exists>s. active_sessions stalled_engine ''tok'' = Some s
          \<and> current_question s = 1 \<and> total_questions s = 1
          \<and> chapter_id s = 7 \<and> current_difficulty s = 1"
    by (simp add: stalled_engine_def quiz_session_def)
  have b: "filter (\<lambda>q. q_chapter_id q = 7 \<and> difficulty q = 1) (questions (db stalled_engine))
       = [example_question]"
    by (simp add: stalled_engine_def quiz_db_def example_db_def example_question_def)
  have c: "select_log (db stalled_engine) = []"
    by (simp add: stalled_engine_def quiz_db_def example_db_def)
  have d: "get_next_question stalled_engine (\<lambda>_. 0) (\<lambda>_. 0) ''tok'' = (None, stalled_engine)"
    by (simp add: get_next_question_def stalled_engine_def quiz_session_def)
  show ?thesis using reachable_stalled a b c by (simp add: d)
qed

text \<open>
  C7, amended. For a live session that is at its target \<^verbatim>\<open>get_next_question\<close> returns
  \<^verbatim>\<open>None\<close> and leaves the engine and the store as they are: no query is issued. For a
  live session below its target the first query carries the session's current
  difficulty, which restricts the chapter's questions to that difficulty unless it is 0
  (a difficulty of 0 applies no filter); if that query finds a question, one of those is
  returned and that was the only query; if it finds none, exactly one more query follows,
  with no difficulty filter, and a question of the chapter is returned if the chapter
  has one; the result is "no question" exactly when the chapter has no question at all.
  A question that is returned always belongs to the session's chapter.
\<close>

theorem next_question_fallback:
  assumes "active_sessions qs sid = Some s"
  shows "(let at_level = filter (\<lambda>q. q_chapter_id q = chapter_id s
                                    \<and> (current_difficulty s \<noteq> 0
                                         \<longrightarrow> difficulty q = current_difficulty s))
                                (questions (db qs));
              in_chapter = filter (\<lambda>q. q_chapter_id q = chapter_id s) (questions (db qs));
              first_query = (user_id s, chapter_id s, Some (current_difficulty s));
              retry = (user_id s, chapter_id s, None);
              reply = fst (get_next_question qs rnd1 rnd2 sid);
              issued = select_log (db (snd (get_next_question qs rnd1 rnd2 sid)))
          in (total_questions s \<le> current_question s \<longrightarrow>
                get_next_question qs rnd1 rnd2 sid = (None, qs))
           \<and> (current_question s < total_questions s \<longrightarrow>
                (at_level \<noteq> [] \<longrightarrow>
                   (\<exists>a. reply = Some a \<and> asked a \<in> set at_level)
                   \<and> issued = select_log (db qs) @ [first_query])
                \<and> (at_level = [] \<longrightarrow>
                     issued = select_log (db qs) @ [first_query, retry]
                     \<and> (in_chapter \<noteq> [] \<longrightarrow>
                          (\<exists>a. reply = Some a \<and> asked a \<in> set in_chapter)))
                \<and> (reply = None \<longleftrightarrow> in_chapter = []))
           \<and> (\<forall>a. reply = Some a \<longrightarrow> asked a \<in> set in_chapter))"
proof -
  let ?d = "db qs"
  let ?q1 = "db_get_next_question ?d rnd1 (user_id s) (chapter_id s) (Some (current_difficulty s))"
  let ?q2 = "db_get_next_question (snd ?q1) rnd2 (user_id s) (chapter_id s) None"
  let ?lvl = "filter (\<lambda>q. q_chapter_id q = chapter_id s
                        \<and> (current_difficulty s \<noteq> 0 \<longrightarrow> difficulty q = current_difficulty s))
                     (questions (db qs))"
  let ?all = "filter (\<lambda>q. q_chapter_id q = chapter_id s) (questions (db qs))"
  let ?reply = "fst (get_next_question qs rnd1 rnd2 sid)"
  let ?issued = "select_log (db (snd (get_next_question qs rnd1 rnd2 sid)))"
  let ?first = "(user_id s, chapter_id s, Some (current_difficulty s))"
  let ?retry = "(user_id s, chapter_id s, None :: int option)"
  have c1: "candidates ?d (chapter_id s) (Some (current_difficulty s)) = ?lvl"
    by (rule candidates_current)
  have c2: "candidates (snd ?q1) (chapter_id s) None = ?all"
    by (simp add: candidates_chapter db_get_next_question_log)
  have sub: "set ?lvl \<subseteq> set ?all" by auto
  have at_target: "get_next_question qs rnd1 rnd2 sid = (None, qs)"
    if "total_questions s \<le> current_question s"
    using assms that by (rule next_question_at_target)
  have below: "(?lvl \<noteq> [] \<longrightarrow>
                   (\<exists>a. ?reply = Some a \<and> asked a \<in> set ?lvl)
                   \<and> ?issued = select_log (db qs) @ [?first])
                \<and> (?lvl = [] \<longrightarrow>
                     ?issued = select_log (db qs) @ [?first, ?retry]
                     \<and> (?all \<noteq> [] \<longrightarrow> (\<exists>a. ?reply = Some a \<and> asked a \<in> set ?all)))
                \<and> (?reply = None \<longleftrightarrow> ?all = [])
                \<and> (\<forall>a. ?reply = Some a \<longrightarrow> asked a \<in> set ?all)"
    if lt: "current_question s < total_questions s"
  proof (cases "fst ?q1")
    case None
    then have lvl: "?lvl = []" using db_get_next_question_result(1)[of ?d] c1 by simp
    have g: "get_next_question qs rnd1 rnd2 sid =
        (map_option (\<lambda>q. \<lparr>asked = q, session_id = sid,
                            ask_question_number = current_question s + 1,
                            ask_total_questions = total_questions s,
                            ask_current_difficulty = current_difficulty s\<rparr>) (fst ?q2),
         qs\<lparr>db := snd ?q2\<rparr>)"
      using assms lt None
      by (simp add: get_next_question_def Let_def split_beta)
    have n: "fst ?q2 = None \<longleftrightarrow> ?all = []"
      using db_get_next_question_result(1)[of "snd ?q1"] c2 by simp
    have m: "\<forall>q. fst ?q2 = Some q \<longrightarrow> q \<in> set ?all"
    proof (intro allI impI)
      fix q
      assume a: "fst ?q2 = Some q"
      from db_get_next_question_result(2)[OF a] c2 show "q \<in> set ?all" by simp
    qed
    have e: "?all \<noteq> [] \<longrightarrow> (\<exists>q. fst ?q2 = Some q \<and> q \<in> set ?all)"
      using n m by auto
    show ?thesis
      unfolding g using lvl n m e
      by (auto simp: db_get_next_question_log)
  next
    case (Some q)
    from db_get_next_question_result(2)[OF Some] c1 have ql: "q \<in> set ?lvl" by simp
    with sub have qa: "q \<in> set ?all" by blast
    have ne: "?lvl \<noteq> []" "?all \<noteq> []"
    proof -
      show "?lvl \<noteq> []" using ql by (metis empty_iff empty_set)
      show "?all \<noteq> []" using qa by (metis empty_iff empty_set)
    qed
    have g: "get_next_question qs rnd1 rnd2 sid =
        (Some \<lparr>asked = q, session_id = sid,
                ask_question_number = current_question s + 1,
                ask_total_questions = total_questions s,
                ask_current_difficulty = current_difficulty s\<rparr>,
         qs\<lparr>db := snd ?q1\<rparr>)"
      using assms lt Some
      by (simp add: get_next_question_def Let_def split_beta)
    show ?thesis
      unfolding g using ne ql qa
      by (simp add: db_get_next_question_log)
  qed
  have mem: "\<forall>a. ?reply = Some a \<longrightarrow> asked a \<in> set ?all"
  proof (cases "current_question s < total_questions s")
    case True
    from below[OF True] show ?thesis by blast
  next
    case False
    then have "?reply = None" using at_target by simp
    then show ?thesis by simp
  qed
  show ?thesis
    unfolding Let_def
  proof (intro conjI impI)
    show "get_next_question qs rnd1 rnd2 sid = (None, qs)"
      if "total_questions s \<le> current_question s"
      using that by (rule at_target)
    show "\<exists>a. ?reply = Some a \<and> asked a \<in> set ?lvl"
      if "current_question s < total_questions s" and "?lvl \<noteq> []"
      using below[OF that(1)] that(2) by blast
    show "?issued = select_log (db qs) @ [?first]"
      if "current_question s < total_questions s" and "?lvl \<noteq> []"
      using below[OF that(1)] that(2) by blast
    show "?issued = select_log (db qs) @ [?first, ?retry]"
      if "current_question s < total_questions s" and "?lvl = []"
      using below[OF that(1)] that(2) by blast
    show "\<exists>a. ?reply = Some a \<and> asked a \<in> set ?all"
      if "current_question s < total_questions s" and "?lvl = []" and "?all \<noteq> []"
      using below[OF that(1)] that(2,3) by blast
    show "(?reply = None) = (?all = [])"
      if "current_question s < total_questions s"
      using below[OF that] by blast
    show "\<forall>a. ?reply = Some a \<longrightarrow> asked a \<in> set ?all"
      by (rule mem)
  qed
qed

theorem next_question_fallback_witness:
  "(\<exists>a. fst (get_next_question (example_engine [3]) (\<lambda>_. 0) (\<lambda>_. 0) ''tok'') = Some a
        \<and> asked a = example_question)
   \<and> select_log (db (snd (get_next_question (example_engine [3]) (\<lambda>_. 0) (\<lambda>_. 0) ''tok'')))
       = [(5, 7, Some 1)]
   \<and> (\<exists>a. fst (get_next_question fixed_engine (\<lambda>_. 0) (\<lambda>_. 0) ''tok'') = Some a
        \<and> asked a = example_question)
   \<and> select_log (db (snd (get_next_question fixed_engine (\<lambda>_. 0) (\<lambda>_. 0) ''tok'')))
       = [(5, 7, Some 2), (5, 7, None)]
   \<and> get_next_question stalled_engine (\<lambda>_. 0) (\<lambda>_. 0) ''tok'' = (None, stalled_engine)"
proof -
  have l1: "active_sessions (example_engine [3]) ''tok'' = Some (example_session [3])"
    by (simp add: example_engine_def)
  have a1: "current_question (example_session [3]) = 1" "total_questions (example_session [3]) = 3"
    by (simp_all add: example_session_def)
  obtain sf where l2: "active_sessions fixed_engine ''tok'' = Some sf"
    and sf: "sf = \<lparr>user_id = 5, chapter_id = 7, current_question = 0, total_questions = 5,
          score = 0, correct_streak = 0, wrong_streak = 0, difficulty_mode = ''2'',
          current_difficulty = 2,
          questions_by_difficulty = [(1, 0), (2, 0), (3, 0)],
          correct_by_difficulty = [(1, 0), (2, 0), (3, 0)],
          response_times = [], started_at = 0\<rparr>"
    by (simp add: fixed_engine_def)
  have a2: "current_question sf = 0" "total_questions sf = 5"
    by (simp_all add: sf)
  have l3: "active_sessions stalled_engine ''tok'' = Some (quiz_session 1 1 1 [4])"
    by (simp add: stalled_engine_def)
  have a3: "current_question (quiz_session 1 1 1 [4]) = 1"
    "total_questions (quiz_session 1 1 1 [4]) = 1"
    by (simp_all add: quiz_session_def)
  have q1: "questions (db (example_engine [3])) = [example_question]"
    "select_log (db (example_engine [3])) = []"
    by (simp_all add: example_engine_def example_db_def)
  have q2: "questions (db fixed_engine) = [example_question]"
    "select_log (db fixed_engine) = []"
    by (simp_all add: fixed_engine_def example_db_def)
  have e: "q_chapter_id example_question = 7" "difficulty example_question = 1"
    by (simp_all add: example_question_def)
  have s1: "chapter_id (example_session [3]) = 7" "current_difficulty (example_session [3]) = 1"
    "user_id (example_session [3]) = 5"
    by (simp_all add: example_session_def)
  have s2: "chapter_id sf = 7" "current_difficulty sf = 2" "user_id sf = 5"
    by (simp_all add: sf)
  from next_question_fallback[OF l1, where ?rnd1.0 = "\<lambda>_. 0" and ?rnd2.0 = "\<lambda>_. 0"]
  have w1: "(\<exists>a. fst (get_next_question (example_engine [3]) (\<lambda>_. 0) (\<lambda>_. 0) ''tok'') = Some a
        \<and> asked a = example_question)
   \<and> select_log (db (snd (get_next_question (example_engine [3]) (\<lambda>_. 0) (\<lambda>_. 0) ''tok'')))
       = [(5, 7, Some 1)]"
    unfolding Let_def q1 s1 a1 by (simp add: e)
  from next_question_fallback[OF l2, where ?rnd1.0 = "\<lambda>_. 0" and ?rnd2.0 = "\<lambda>_. 0"]
  have w2: "(\<exists>a. fst (get_next_question fixed_engine (\<lambda>_. 0) (\<lambda>_. 0) ''tok'') = Some a
        \<and> asked a = example_question)
   \<and> select_log (db (snd (get_next_question fixed_engine (\<lambda>_. 0) (\<lambda>_. 0) ''tok'')))
       = [(5, 7, Some 2), (5, 7, None)]"
    unfolding Let_def q2 s2 a2 by (simp add: e)
  from next_question_fallback[OF l3, where ?rnd1.0 = "\<lambda>_. 0" and ?rnd2.0 = "\<lambda>_. 0"]
  have w3: "get_next_question stalled_engine (\<lambda>_. 0) (\<lambda>_. 0) ''tok'' = (None, stalled_engine)"
    unfolding Let_def a3 by simp
  from w1 w2 w3 show ?thesis by blast
qed

section \<open>Unknown session tokens\<close>

text \<open>
  C8, as stated, fails for \<^verbatim>\<open>get_next_question\<close>: it answers an unknown token with
  \<^verbatim>\<open>None\<close>, which is also its answer for a live session whose chapter has no question.
\<close>

theorem next_question_unknown_not_distinct:
  "active_sessions (example_engine [3]) ''ghost'' = None
   \<and> active_sessions barren_engine ''tok'' \<noteq> None
   \<and> fst (get_next_question (example_engine [3]) (\<lambda>_. 0) (\<lambda>_. 0) ''ghost'') = None
   \<and> fst (get_next_question barren_engine (\<lambda>_. 0) (\<lambda>_. 0) ''tok'') = None
   \<and> fst (get_next_question (example_engine [3]) (\<lambda>_. 0) (\<lambda>_. 0) ''ghost'')
       = fst (get_next_question barren_engine (\<lambda>_. 0) (\<lambda>_. 0) ''tok'')"
  by (simp add: get_next_question_def example_engine_def barren_engine_def example_db_def
      example_session_def db_get_next_question_def candidates_def Let_def)

lemma end_quiz_live:
  "active_sessions qs sid = Some s \<Longrightarrow>
     fst (end_quiz fsum qs sid now) \<noteq> Returned (EndError msg)"
  by (simp add: end_quiz_def split: prod.splits result.splits)

lemma submit_answer_live_not_invalid:
  assumes "active_sessions qs sid = Some s"
  shows "fst (submit_answer fsum qs sid qid ua rt now) \<noteq> Returned (SubmitError ''Invalid session'')"
  using assms by (cases rule: submit_answer_cases[of qs sid fsum qid ua rt now]) auto

lemma cleanup_sessions_live:
  "active_sessions (snd (cleanup_sessions qs cutoff)) = active_sessions qs"
  by (simp add: cleanup_sessions_def cleanup_old_sessions_def)

lemma cleanup_sessions_marker:
  assumes "accepts_writes (db qs)" and "active_quizzes (db qs) sid = Some r"
    and "aq_started_at r < cutoff"
  shows "active_quizzes (db (snd (cleanup_sessions qs cutoff))) sid = None"
  using assms by (simp add: cleanup_sessions_def cleanup_old_sessions_def)

lemma swept_answer:
  "submit_answer fsum (snd (cleanup_sessions (quiz_state 5 0 1 [] []) 10)) ''tok'' 1 ''b'' 4 9 =
     (Returned (Response \<lparr>is_correct = True, correct_answer = ''B'', r_explanation = None,
         points_earned = 1, current_score = 1, question_number = 1,
         r_total_questions = 5, streak = 1, quiz_complete = None, r_final_stats = None\<rparr>),
      (quiz_state 5 1 1 [4] [example_attempt])
        \<lparr>db := (quiz_db 5 [example_attempt])\<lparr>active_quizzes := Map.empty\<rparr>\<rparr>)"
  by (simp add: submit_answer_def cleanup_sessions_def cleanup_old_sessions_def quiz_state_def
      quiz_db_def quiz_session_def example_db_def
      example_question_def example_attempt_def lower_B points_map_lookup
      update_session_statistics_def dict_incr_def record_quiz_attempt_def adjust_difficulty_def
      Let_def fun_eq_iff)

text \<open>
  C8, amended. With a token that has no entry in \<^verbatim>\<open>active_sessions\<close>, \<^verbatim>\<open>submit_answer\<close>
  and \<^verbatim>\<open>end_quiz\<close> return the error "Invalid session", which they never return for a
  live token, and \<^verbatim>\<open>get_session_info\<close> returns \<^verbatim>\<open>None\<close>, which it never returns for a live
  token; none of them changes the state. \<^verbatim>\<open>get_next_question\<close> returns \<^verbatim>\<open>None\<close> and
  changes nothing; that value is not particular to such a token, since a live session at
  its target and a live session whose chapter has no question get \<^verbatim>\<open>None\<close> too.
  Sessions do not expire in the engine: the periodic sweep deletes marker rows of the
  store that are older than its cutoff and leaves \<^verbatim>\<open>active_sessions\<close> as it is, so a
  token whose marker row was swept is live as before and no operation answers it with
  the error.
\<close>

theorem unknown_session_signals:
  "(active_sessions qs sid = None \<longrightarrow>
      submit_answer fsum qs sid qid ua rt now = (Returned (SubmitError ''Invalid session''), qs)
      \<and> end_quiz fsum qs sid now = (Returned (EndError ''Invalid session''), qs)
      \<and> get_session_info qs sid = None
      \<and> get_next_question qs rnd1 rnd2 sid = (None, qs))
   \<and> (active_sessions qs sid \<noteq> None \<longrightarrow>
      fst (submit_answer fsum qs sid qid ua rt now) \<noteq> Returned (SubmitError ''Invalid session'')
      \<and> fst (end_quiz fsum qs sid now) \<noteq> Returned (EndError ''Invalid session'')
      \<and> get_session_info qs sid \<noteq> None)
   \<and> (\<forall>s. active_sessions qs sid = Some s \<longrightarrow>
        (total_questions s \<le> current_question s \<longrightarrow>
           get_next_question qs rnd1 rnd2 sid = (None, qs))
        \<and> (filter (\<lambda>q. q_chapter_id q = chapter_id s) (questions (db qs)) = [] \<longrightarrow>
             fst (get_next_question qs rnd1 rnd2 sid) = None))
   \<and> active_sessions (snd (cleanup_sessions qs cutoff)) = active_sessions qs
   \<and> (\<forall>r. accepts_writes (db qs) \<and> active_quizzes (db qs) sid = Some r
          \<and> aq_started_at r < cutoff \<longrightarrow>
        active_quizzes (db (snd (cleanup_sessions qs cutoff))) sid = None)
   \<and> (active_sessions qs sid \<noteq> None \<longrightarrow>
      fst (submit_answer fsum (snd (cleanup_sessions qs cutoff)) sid qid ua rt now)
        \<noteq> Returned (SubmitError ''Invalid session'')
      \<and> fst (end_quiz fsum (snd (cleanup_sessions qs cutoff)) sid now)
          \<noteq> Returned (EndError ''Invalid session'')
      \<and> get_session_info (snd (cleanup_sessions qs cutoff)) sid = get_session_info qs sid)"
proof -
  have unknown: "submit_answer fsum qs sid qid ua rt now
                   = (Returned (SubmitError ''Invalid session''), qs)
      \<and> end_quiz fsum qs sid now = (Returned (EndError ''Invalid session''), qs)
      \<and> get_session_info qs sid = None
      \<and> get_next_question qs rnd1 rnd2 sid = (None, qs)"
    if n: "active_sessions qs sid = None"
  proof (intro conjI)
    from n show "submit_answer fsum qs sid qid ua rt now
                 = (Returned (SubmitError ''Invalid session''), qs)"
      by (rule submit_answer_unknown)
    from n show "end_quiz fsum qs sid now = (Returned (EndError ''Invalid session''), qs)"
      by (simp add: end_quiz_def)
    from n show "get_session_info qs sid = None" by (simp add: get_session_info_def)
    from n show "get_next_question qs rnd1 rnd2 sid = (None, qs)"
      by (simp add: get_next_question_def)
  qed
  have live: "fst (submit_answer fsum qs' sid qid ua rt now)
                 \<noteq> Returned (SubmitError ''Invalid session'')
      \<and> fst (end_quiz fsum qs' sid now) \<noteq> Returned (EndError ''Invalid session'')
      \<and> get_session_info qs' sid \<noteq> None"
    if "active_sessions qs' sid \<noteq> None" for qs'
  proof -
    from that obtain s where s: "active_sessions qs' sid = Some s" by auto
    from s have "fst (submit_answer fsum qs' sid qid ua rt now)
                 \<noteq> Returned (SubmitError ''Invalid session'')"
      by (rule submit_answer_live_not_invalid)
    moreover from s have "fst (end_quiz fsum qs' sid now) \<noteq> Returned (EndError ''Invalid session'')"
      by (rule end_quiz_live)
    moreover from s have "get_session_info qs' sid \<noteq> None" by (simp add: get_session_info_def)
    ultimately show ?thesis by blast
  qed
  have none: "(total_questions s \<le> current_question s \<longrightarrow>
           get_next_question qs rnd1 rnd2 sid = (None, qs))
        \<and> (filter (\<lambda>q. q_chapter_id q = chapter_id s) (questions (db qs)) = [] \<longrightarrow>
             fst (get_next_question qs rnd1 rnd2 sid) = None)"
    if "active_sessions qs sid = Some s" for s
    using that next_question_at_target[of qs sid s rnd1 rnd2]
      next_question_barren[of qs sid s rnd1 rnd2] by blast
  have swept: "fst (submit_answer fsum (snd (cleanup_sessions qs cutoff)) sid qid ua rt now)
        \<noteq> Returned (SubmitError ''Invalid session'')
      \<and> fst (end_quiz fsum (snd (cleanup_sessions qs cutoff)) sid now)
          \<noteq> Returned (EndError ''Invalid session'')
      \<and> get_session_info (snd (cleanup_sessions qs cutoff)) sid = get_session_info qs sid"
    if "active_sessions qs sid \<noteq> None"
    using live[of "snd (cleanup_sessions qs cutoff)"] that
    by (simp add: cleanup_sessions_live get_session_info_def)
  have marker: "\<forall>r. accepts_writes (db qs) \<and> active_quizzes (db qs) sid = Some r
          \<and> aq_started_at r < cutoff \<longrightarrow>
        active_quizzes (db (snd (cleanup_sessions qs cutoff))) sid = None"
    using cleanup_sessions_marker by blast
  show ?thesis
    using unknown live[of qs] none swept marker cleanup_sessions_live[of qs cutoff]
    by blast
qed

theorem unknown_session_signals_witness:
  "submit_answer sum_in_order (example_engine [3]) ''ghost'' 1 ''b'' 4 9
     = (Returned (SubmitError ''Invalid session''), example_engine [3])
   \<and> end_quiz sum_in_order (example_engine [3]) ''ghost'' 9
     = (Returned (EndError ''Invalid session''), example_engine [3])
   \<and> get_session_info (example_engine [3]) ''ghost'' = None
   \<and> get_next_question (example_engine [3]) (\<lambda>_. 0) (\<lambda>_. 0) ''ghost'' = (None, example_engine [3])
   \<and> fst (submit_answer sum_in_order (example_engine [3]) ''tok'' 1 ''b'' 4 9)
       \<noteq> Returned (SubmitError ''Invalid session'')
   \<and> fst (end_quiz sum_in_order (example_engine [3]) ''tok'' 9) \<noteq> Returned (EndError ''Invalid session'')
   \<and> get_session_info (example_engine [3]) ''tok'' \<noteq> None
   \<and> get_next_question stalled_engine (\<lambda>_. 0) (\<lambda>_. 0) ''tok'' = (None, stalled_engine)
   \<and> fst (get_next_question barren_engine (\<lambda>_. 0) (\<lambda>_. 0) ''tok'') = None
   \<and> active_quizzes (db (quiz_state 5 0 1 [] [])) ''tok'' \<noteq> None
   \<and> active_quizzes (db (snd (cleanup_sessions (quiz_state 5 0 1 [] []) 10))) ''tok'' = None
   \<and> get_session_info (snd (cleanup_sessions (quiz_state 5 0 1 [] []) 10)) ''tok''
       = Some (quiz_session 5 0 1 [])
   \<and> fst (submit_answer sum_in_order (snd (cleanup_sessions (quiz_state 5 0 1 [] []) 10))
            ''tok'' 1 ''b'' 4 9)
       \<noteq> Returned (SubmitError ''Invalid session'')
   \<and> is_success (fst (submit_answer sum_in_order
                         (snd (cleanup_sessions (quiz_state 5 0 1 [] []) 10)) ''tok'' 1 ''b'' 4 9))"
proof -
  have a: "active_sessions (example_engine [3]) ''ghost'' = None"
    by (simp add: example_engine_def)
  have b: "active_sessions (example_engine [3]) ''tok'' \<noteq> None"
    by (simp add: example_engine_def)
  have c: "active_sessions stalled_engine ''tok'' = Some (quiz_session 1 1 1 [4])"
    "total_questions (quiz_session 1 1 1 [4]) \<le> current_question (quiz_session 1 1 1 [4])"
    by (simp_all add: stalled_engine_def quiz_session_def)
  have d: "active_sessions barren_engine ''tok'' = Some (example_session [3])"
    "filter (\<lambda>q. q_chapter_id q = chapter_id (example_session [3])) (questions (db barren_engine))
       = []"
    by (simp_all add: barren_engine_def)
  have e: "active_sessions (quiz_state 5 0 1 [] []) ''tok'' \<noteq> None"
    "accepts_writes (db (quiz_state 5 0 1 [] []))"
    "active_quizzes (db (quiz_state 5 0 1 [] [])) ''tok'' =
       Some \<lparr>aq_user_id = 5, aq_chapter_id = 7, aq_current_difficulty = 1,
             aq_total_questions = 5, aq_started_at = 0\<rparr>"
    "get_session_info (quiz_state 5 0 1 [] []) ''tok'' = Some (quiz_session 5 0 1 [])"
    by (simp_all add: quiz_state_def quiz_db_def example_db_def get_session_info_def)
  have f: "aq_started_at \<lparr>aq_user_id = 5, aq_chapter_id = 7, aq_current_difficulty = 1,
             aq_total_questions = 5, aq_started_at = 0\<rparr> < (10::nat)"
    by simp
  have g: "is_success (fst (submit_answer sum_in_order
                         (snd (cleanup_sessions (quiz_state 5 0 1 [] []) 10)) ''tok'' 1 ''b'' 4 9))"
    by (simp add: swept_answer)
  have w1: "submit_answer sum_in_order (example_engine [3]) ''ghost'' 1 ''b'' 4 9
     = (Returned (SubmitError ''Invalid session''), example_engine [3])
   \<and> end_quiz sum_in_order (example_engine [3]) ''ghost'' 9
     = (Returned (EndError ''Invalid session''), example_engine [3])
   \<and> get_session_info (example_engine [3]) ''ghost'' = None
   \<and> get_next_question (example_engine [3]) (\<lambda>_. 0) (\<lambda>_. 0) ''ghost'' = (None, example_engine [3])"
    using unknown_session_signals[where qs = "example_engine [3]" and sid = "''ghost''"
        and fsum = sum_in_order and qid = 1 and ua = "''b''" and rt = 4 and now = 9
        and ?rnd1.0 = "\<lambda>_. 0" and ?rnd2.0 = "\<lambda>_. 0" and cutoff = 10] a
    by blast
  have w2: "fst (submit_answer sum_in_order (example_engine [3]) ''tok'' 1 ''b'' 4 9)
       \<noteq> Returned (SubmitError ''Invalid session'')
   \<and> fst (end_quiz sum_in_order (example_engine [3]) ''tok'' 9) \<noteq> Returned (EndError ''Invalid session'')
   \<and> get_session_info (example_engine [3]) ''tok'' \<noteq> None"
    using unknown_session_signals[where qs = "example_engine [3]" and sid = "''tok''"
        and fsum = sum_in_order and qid = 1 and ua = "''b''" and rt = 4 and now = 9
        and ?rnd1.0 = "\<lambda>_. 0" and ?rnd2.0 = "\<lambda>_. 0" and cutoff = 10] b
    by blast
  have w3: "get_next_question stalled_engine (\<lambda>_. 0) (\<lambda>_. 0) ''tok'' = (None, stalled_engine)"
    using unknown_session_signals[where qs = stalled_engine and sid = "''tok''"
        and fsum = sum_in_order and qid = 1 and ua = "''b''" and rt = 4 and now = 9
        and ?rnd1.0 = "\<lambda>_. 0" and ?rnd2.0 = "\<lambda>_. 0" and cutoff = 10] c
    by blast
  have w4: "fst (get_next_question barren_engine (\<lambda>_. 0) (\<lambda>_. 0) ''tok'') = None"
    using unknown_session_signals[where qs = barren_engine and sid = "''tok''"
        and fsum = sum_in_order and qid = 1 and ua = "''b''" and rt = 4 and now = 9
        and ?rnd1.0 = "\<lambda>_. 0" and ?rnd2.0 = "\<lambda>_. 0" and cutoff = 10] d
    by blast
  have w5: "active_quizzes (db (snd (cleanup_sessions (quiz_state 5 0 1 [] []) 10))) ''tok'' = None
   \<and> get_session_info (snd (cleanup_sessions (quiz_state 5 0 1 [] []) 10)) ''tok''
       = Some (quiz_session 5 0 1 [])
   \<and> fst (submit_answer sum_in_order (snd (cleanup_sessions (quiz_state 5 0 1 [] []) 10))
            ''tok'' 1 ''b'' 4 9)
       \<noteq> Returned (SubmitError ''Invalid session'')"
    using unknown_session_signals[where qs = "quiz_state 5 0 1 [] []" and sid = "''tok''"
        and fsum = sum_in_order and qid = 1 and ua = "''b''" and rt = 4 and now = 9
        and ?rnd1.0 = "\<lambda>_. 0" and ?rnd2.0 = "\<lambda>_. 0" and cutoff = 10] e f
    by metis
  from e(3) have w6: "active_quizzes (db (quiz_state 5 0 1 [] [])) ''tok'' \<noteq> None" by simp
  from w1 w2 w3 w4 w5 w6 g show ?thesis by blast
qed

section \<open>Starting a quiz\<close>







section \<open>Reaching the target\<close>









section \<open>When an answer is scored\<close>

text \<open>
  The hypotheses of the theorems above on a scored answer can be met from every
  reachable state: a live session, a stored question of difficulty 1, 2 or 3 and a store
  that accepts the write make \<^verbatim>\<open>submit_answer\<close> return its response.
\<close>

lemma submit_answer_succeeds:
  assumes "reachable qs" and "active_sessions qs sid = Some s"
    and "find (\<lambda>q. question_id q = qid) (questions (db qs)) = Some q"
    and "difficulty q \<in> {1, 2, 3}"
    and "accepts_writes (db qs)"
  shows "\<exists>r qs'. submit_answer fsum qs sid qid ua rt now = (Returned (Response r), qs')"
proof (cases rule: submit_answer_cases[of qs sid fsum qid ua rt now])
  case unknown
  with assms(2) show ?thesis by simp
next
  case (no_question s0)
  with assms(3) show ?thesis by simp
next
  case (no_points s0 q0)
  with assms(3,4) show ?thesis by (auto simp: points_map_lookup)
next
  case (key_error s0 q0 points e s')
  from key_error(1,2) assms(2,3) have "s0 = s" "q0 = q" by simp_all
  with update_None_iff[OF reachable_session_inv[OF assms(1,2)], of q
      "lower ua = lower (correct_option q)" points rt] key_error(3) assms(4)
  show ?thesis by simp
next
  case (recorder s0 q0 points s')
  with assms(5) show ?thesis by simp
next
  case (adapter s0 q0 points s' e d)
  from adapter(1) assms(2) have "s0 = s" by simp
  with adapter(3) have "s' = snd (update_session_statistics s q0
      (lower ua = lower (correct_option q0)) points rt)" by simp
  with session_inv_update[OF reachable_session_inv[OF assms(1,2)]]
  have "session_inv s'" by simp
  from adjust_difficulty_spec[OF this adapter(5)] adapter(6) show ?thesis by simp
next
  case (answered s0 q0 r qs')
  then show ?thesis by blast
qed

end
